theory Spec2Isabelle
  imports Complex_Main
begin

section \<open>GDAL element types and error codes\<close>

text \<open>
  The pixel functions of \<^verbatim>\<open>pixelfunctions.c\<close> are callbacks of the GDAL raster library.
  The enumerations \<^verbatim>\<open>GDALDataType\<close> and \<^verbatim>\<open>CPLErr\<close>, the two type queries and the
  \<^verbatim>\<open>SRCVAL\<close> macro come from \<^verbatim>\<open>gdal.h\<close>, which the file includes.
\<close>

datatype GDALDataType =
    GDT_Unknown | GDT_Byte | GDT_UInt16 | GDT_Int16 | GDT_UInt32 | GDT_Int32
  | GDT_Float32 | GDT_Float64 | GDT_CInt16 | GDT_CInt32 | GDT_CFloat32 | GDT_CFloat64

datatype CPLErr = CE_None | CE_Debug | CE_Warning | CE_Failure | CE_Fatal

text \<open>Modelled from the spec: \<^verbatim>\<open>GDALGetDataTypeSize\<close> of \<^verbatim>\<open>gdal.h\<close>, the width of an
  element in bits; a complex element is two components of half that width.\<close>

fun GDALGetDataTypeSize :: "GDALDataType \<Rightarrow> int" where
  "GDALGetDataTypeSize GDT_Byte = 8"
| "GDALGetDataTypeSize GDT_UInt16 = 16"
| "GDALGetDataTypeSize GDT_Int16 = 16"
| "GDALGetDataTypeSize GDT_UInt32 = 32"
| "GDALGetDataTypeSize GDT_Int32 = 32"
| "GDALGetDataTypeSize GDT_Float32 = 32"
| "GDALGetDataTypeSize GDT_Float64 = 64"
| "GDALGetDataTypeSize GDT_CInt16 = 32"
| "GDALGetDataTypeSize GDT_CInt32 = 64"
| "GDALGetDataTypeSize GDT_CFloat32 = 64"
| "GDALGetDataTypeSize GDT_CFloat64 = 128"
| "GDALGetDataTypeSize GDT_Unknown = 0"

text \<open>Modelled from the spec: \<^verbatim>\<open>GDALDataTypeIsComplex\<close> of \<^verbatim>\<open>gdal.h\<close>.\<close>

fun GDALDataTypeIsComplex :: "GDALDataType \<Rightarrow> bool" where
  "GDALDataTypeIsComplex GDT_CInt16 = True"
| "GDALDataTypeIsComplex GDT_CInt32 = True"
| "GDALDataTypeIsComplex GDT_CFloat32 = True"
| "GDALDataTypeIsComplex GDT_CFloat64 = True"
| "GDALDataTypeIsComplex _ = False"

section \<open>The C type double\<close>

text \<open>
  A \<^verbatim>\<open>double\<close> is a finite real number, a negative zero, an infinity or a NaN, and
  \<open>Finite 0\<close> is the positive zero. The special values follow IEEE 754 and Annex F of
  the C standard. The arithmetic operations round the exact result to the nearest
  number of the binary64 format, a tie to the even significand: a result too large
  becomes an infinity, a result too small a subnormal number or a zero.
\<close>

datatype double = Finite real | NegZero | PInf | NInf | NaN

fun dval :: "double \<Rightarrow> real" where
  "dval (Finite r) = r"
| "dval _ = 0"

fun signbit :: "double \<Rightarrow> bool" where
  "signbit (Finite r) = (r < 0)"
| "signbit NegZero = True"
| "signbit PInf = False"
| "signbit NInf = True"
| "signbit NaN = False"

definition is_nan :: "double \<Rightarrow> bool" where
  "is_nan x = (x = NaN)"

definition is_inf :: "double \<Rightarrow> bool" where
  "is_inf x = (x = PInf \<or> x = NInf)"

definition is_zero :: "double \<Rightarrow> bool" where
  "is_zero x = (x = Finite 0 \<or> x = NegZero)"

definition zero_signed :: "bool \<Rightarrow> double" where
  "zero_signed neg = (if neg then NegZero else Finite 0)"

definition inf_signed :: "bool \<Rightarrow> double" where
  "inf_signed neg = (if neg then NInf else PInf)"

definition finite_signed :: "bool \<Rightarrow> real \<Rightarrow> double" where
  "finite_signed neg r = (if r = 0 then zero_signed neg else Finite r)"

text \<open>
  Rounding to the nearest integer, a tie to the even one, and rounding of a real number
  to a binary format of precision \<open>p\<close> with the exponents \<open>emin\<close> to \<open>emax\<close>: the unit
  in the last place is \<open>2 powi (e - (p - 1))\<close> for the exponent \<open>e\<close> of the number, and
  that of \<open>emin\<close> below the normal range. \<open>round_to_double\<close> is the binary64 format.
\<close>

definition round_half_even :: "real \<Rightarrow> int" where
  "round_half_even m =
    (let f = \<lfloor>m\<rfloor>; d = m - of_int f
     in if d < 1 / 2 then f else if 1 / 2 < d then f + 1 else if even f then f else f + 1)"

definition round_to_format :: "nat \<Rightarrow> int \<Rightarrow> int \<Rightarrow> real \<Rightarrow> double" where
  "round_to_format p emin emax r =
    (if r = 0 then Finite 0
     else
       (let e = max emin \<lfloor>log 2 \<bar>r\<bar>\<rfloor>;
            ulp = 2 powi (e - (int p - 1));
            y = of_int (round_half_even (r / ulp)) * ulp
        in if 2 powi (emax + 1) \<le> \<bar>y\<bar> then inf_signed (r < 0) else finite_signed (r < 0) y))"

definition round_to_double :: "real \<Rightarrow> double" where
  "round_to_double r = round_to_format 53 (- 1022) 1023 r"

text \<open>The rounded result of a product or a quotient: an exact zero takes the sign of
  the operation.\<close>

definition round_signed :: "bool \<Rightarrow> real \<Rightarrow> double" where
  "round_signed neg r = (if r = 0 then zero_signed neg else round_to_double r)"

definition double_of_int :: "int \<Rightarrow> double" where
  "double_of_int i = Finite (of_int i)"

definition dneg :: "double \<Rightarrow> double" where
  "dneg x = (case x of
      Finite r \<Rightarrow> if r = 0 then NegZero else Finite (- r)
    | NegZero \<Rightarrow> Finite 0
    | PInf \<Rightarrow> NInf
    | NInf \<Rightarrow> PInf
    | NaN \<Rightarrow> NaN)"

definition dadd :: "double \<Rightarrow> double \<Rightarrow> double" where
  "dadd x y =
    (if is_nan x \<or> is_nan y then NaN
     else if is_inf x \<and> is_inf y then (if x = y then x else NaN)
     else if is_inf x then x
     else if is_inf y then y
     else if x = NegZero \<and> y = NegZero then NegZero
     else round_to_double (dval x + dval y))"

definition dsub :: "double \<Rightarrow> double \<Rightarrow> double" where
  "dsub x y = dadd x (dneg y)"

definition dmul :: "double \<Rightarrow> double \<Rightarrow> double" where
  "dmul x y =
    (if is_nan x \<or> is_nan y then NaN
     else if (is_inf x \<and> is_zero y) \<or> (is_zero x \<and> is_inf y) then NaN
     else if is_inf x \<or> is_inf y then inf_signed (signbit x \<noteq> signbit y)
     else round_signed (signbit x \<noteq> signbit y) (dval x * dval y))"

definition ddiv :: "double \<Rightarrow> double \<Rightarrow> double" where
  "ddiv x y =
    (if is_nan x \<or> is_nan y then NaN
     else if (is_inf x \<and> is_inf y) \<or> (is_zero x \<and> is_zero y) then NaN
     else if is_inf x \<or> is_zero y then inf_signed (signbit x \<noteq> signbit y)
     else if is_inf y then zero_signed (signbit x \<noteq> signbit y)
     else round_signed (signbit x \<noteq> signbit y) (dval x / dval y))"

text \<open>The comparisons \<^verbatim>\<open><\<close> and \<^verbatim>\<open>!=\<close>: a NaN is unordered and unequal to everything,
  the two zeros are equal.\<close>

fun drank :: "double \<Rightarrow> int" where
  "drank PInf = 1"
| "drank NInf = - 1"
| "drank _ = 0"

definition dlt :: "double \<Rightarrow> double \<Rightarrow> bool" where
  "dlt x y = (\<not> is_nan x \<and> \<not> is_nan y \<and>
     (drank x < drank y \<or> (drank x = drank y \<and> dval x < dval y)))"

definition dne :: "double \<Rightarrow> double \<Rightarrow> bool" where
  "dne x y = (is_nan x \<or> is_nan y \<or> \<not> (x = y \<or> (is_zero x \<and> is_zero y)))"

text \<open>
  The conversion of a \<^verbatim>\<open>double\<close> to \<^verbatim>\<open>int\<close> truncates toward zero. Outside the range of
  a 32-bit \<^verbatim>\<open>int\<close> (and on NaN and the infinities) C leaves the conversion undefined;
  the model returns \<^verbatim>\<open>INT_MIN\<close> there, as the x86-64 conversion instruction does.
  \<^verbatim>\<open>abs\<close> of \<^verbatim>\<open>stdlib.h\<close> takes and returns an \<^verbatim>\<open>int\<close>; \<^verbatim>\<open>abs(INT_MIN)\<close> is undefined
  in C and wraps to \<^verbatim>\<open>INT_MIN\<close> in two's complement.
\<close>

definition INT_MIN :: int where
  "INT_MIN = - 2147483648"

definition INT_MAX :: int where
  "INT_MAX = 2147483647"

definition trunc_toward_zero :: "real \<Rightarrow> int" where
  "trunc_toward_zero r = (if 0 \<le> r then \<lfloor>r\<rfloor> else \<lceil>r\<rceil>)"

definition c_double_to_int :: "double \<Rightarrow> int" where
  "c_double_to_int x = (case x of
      Finite r \<Rightarrow>
        (let t = trunc_toward_zero r
         in if INT_MIN \<le> t \<and> t \<le> INT_MAX then t else INT_MIN)
    | NegZero \<Rightarrow> 0
    | _ \<Rightarrow> INT_MIN)"

definition c_abs :: "int \<Rightarrow> int" where
  "c_abs i = (if i = INT_MIN then INT_MIN else \<bar>i\<bar>)"

section \<open>The functions of math.h\<close>

text \<open>
  \<^verbatim>\<open>sqrt\<close> is correctly rounded, as IEEE 754 requires. For the other functions, whose
  accuracy the C standard leaves to the implementation, the model returns the
  mathematical value; the special cases follow Annex F.
\<close>

definition c_sqrt :: "double \<Rightarrow> double" where
  "c_sqrt x = (case x of
      Finite r \<Rightarrow> if r < 0 then NaN else round_to_double (sqrt r)
    | NegZero \<Rightarrow> NegZero
    | PInf \<Rightarrow> PInf
    | NInf \<Rightarrow> NaN
    | NaN \<Rightarrow> NaN)"

definition c_log10 :: "double \<Rightarrow> double" where
  "c_log10 x = (case x of
      Finite r \<Rightarrow> if r = 0 then NInf else if r < 0 then NaN else Finite (log 10 r)
    | NegZero \<Rightarrow> NInf
    | PInf \<Rightarrow> PInf
    | NInf \<Rightarrow> NaN
    | NaN \<Rightarrow> NaN)"

definition c_asin :: "double \<Rightarrow> double" where
  "c_asin x = (case x of
      Finite r \<Rightarrow> if \<bar>r\<bar> \<le> 1 then Finite (arcsin r) else NaN
    | NegZero \<Rightarrow> NegZero
    | _ \<Rightarrow> NaN)"

definition c_tan :: "double \<Rightarrow> double" where
  "c_tan x = (case x of
      Finite r \<Rightarrow> Finite (tan r)
    | NegZero \<Rightarrow> NegZero
    | _ \<Rightarrow> NaN)"

definition angle_signed :: "bool \<Rightarrow> real \<Rightarrow> double" where
  "angle_signed neg r = Finite (if neg then - r else r)"

definition c_atan2 :: "double \<Rightarrow> double \<Rightarrow> double" where
  "c_atan2 y x =
    (if is_nan y \<or> is_nan x then NaN
     else if is_zero y then
       (if signbit x then angle_signed (signbit y) pi else zero_signed (signbit y))
     else if is_inf y then
       (if x = PInf then angle_signed (signbit y) (pi / 4)
        else if x = NInf then angle_signed (signbit y) (3 * pi / 4)
        else angle_signed (signbit y) (pi / 2))
     else if is_zero x then angle_signed (signbit y) (pi / 2)
     else if x = PInf then zero_signed (signbit y)
     else if x = NInf then angle_signed (signbit y) pi
     else if 0 < dval x then Finite (arctan (dval y / dval x))
     else if 0 < dval y then Finite (arctan (dval y / dval x) + pi)
     else Finite (arctan (dval y / dval x) - pi))"

definition odd_integer :: "real \<Rightarrow> bool" where
  "odd_integer r = (r = of_int \<lfloor>r\<rfloor> \<and> odd \<lfloor>r\<rfloor>)"

definition c_pow :: "double \<Rightarrow> double \<Rightarrow> double" where
  "c_pow x y =
    (if is_zero y then Finite 1
     else if x = Finite 1 then Finite 1
     else if is_nan x \<or> is_nan y then NaN
     else if is_zero x then
       (if signbit y then inf_signed (signbit x \<and> \<not> is_inf y \<and> odd_integer (dval y))
        else zero_signed (signbit x \<and> \<not> is_inf y \<and> odd_integer (dval y)))
     else if is_inf y then
       (if x = Finite (- 1) then Finite 1
        else if \<not> is_inf x \<and> \<bar>dval x\<bar> < 1 then (if y = NInf then PInf else Finite 0)
        else (if y = NInf then Finite 0 else PInf))
     else if x = NInf then
       (if signbit y then zero_signed (odd_integer (dval y))
        else inf_signed (odd_integer (dval y)))
     else if x = PInf then (if signbit y then Finite 0 else PInf)
     else if 0 < dval x then Finite (dval x powr dval y)
     else if dval y = of_int \<lfloor>dval y\<rfloor> then
       Finite ((if odd \<lfloor>dval y\<rfloor> then - 1 else 1) * (\<bar>dval x\<bar> powr dval y))
     else NaN)"

section \<open>Buffers, the SRCVAL macro and GDALCopyWords\<close>

text \<open>
  A source buffer is read-only memory holding packed elements of the source type. It
  maps the byte offset of a component (an element of a real type, the real or the
  imaginary half of a complex one) to the value stored there, converted to
  \<^verbatim>\<open>double\<close>. A pointer into it is the buffer with a byte offset.
\<close>

type_synonym src_buffer = "int \<Rightarrow> double"

type_synonym src_ptr = "src_buffer \<times> int"

text \<open>An array of components of \<open>sz\<close> bytes each, as a buffer.\<close>

definition array_of :: "int \<Rightarrow> double list \<Rightarrow> src_buffer" where
  "array_of sz xs = (\<lambda>a. xs ! nat (a div sz))"

text \<open>A local \<^verbatim>\<open>double\<close> variable or a local array of them, seen through its address.\<close>

definition double_array :: "double list \<Rightarrow> src_buffer" where
  "double_array xs = array_of 8 xs"

text \<open>Modelled from the spec: the \<^verbatim>\<open>SRCVAL\<close> macro of \<^verbatim>\<open>gdal.h\<close>, a chain of
  conditionals that casts the pointer to the component type and indexes it with
  \<open>ii\<close> (real types) or \<open>ii * 2\<close> (complex types); its value is a \<^verbatim>\<open>double\<close>.\<close>

definition SRCVAL :: "src_ptr \<Rightarrow> GDALDataType \<Rightarrow> int \<Rightarrow> double" where
  "SRCVAL papoSource eSrcType ii =
    (case papoSource of (buf, off) \<Rightarrow>
      if eSrcType = GDT_Byte then buf (off + ii * 1)
      else if eSrcType = GDT_Float32 then buf (off + ii * 4)
      else if eSrcType = GDT_Float64 then buf (off + ii * 8)
      else if eSrcType = GDT_Int32 then buf (off + ii * 4)
      else if eSrcType = GDT_UInt16 then buf (off + ii * 2)
      else if eSrcType = GDT_Int16 then buf (off + ii * 2)
      else if eSrcType = GDT_UInt32 then buf (off + ii * 4)
      else if eSrcType = GDT_CInt16 then buf (off + ii * 2 * 2)
      else if eSrcType = GDT_CInt32 then buf (off + ii * 2 * 4)
      else if eSrcType = GDT_CFloat32 then buf (off + ii * 2 * 4)
      else if eSrcType = GDT_CFloat64 then buf (off + ii * 2 * 8)
      else Finite 0)"

text \<open>
  The destination buffer maps the byte offset at which an element was stored to that
  element: the destination type and the \<^verbatim>\<open>double\<close> values handed to the conversion
  into that type. The narrowing itself belongs to GDAL and is not computed when an
  element is stored; it is applied when a destination buffer is read back.
\<close>

datatype cell = Stored GDALDataType double double

type_synonym dst_buffer = "int \<Rightarrow> cell"

type_synonym dst_ptr = "dst_buffer \<times> int"

fun cell_re :: "cell \<Rightarrow> double" where
  "cell_re (Stored t re im) = re"


text \<open>A \<^verbatim>\<open>for (i = i0; i < n; ++i)\<close> loop over a state.\<close>

function for_loop :: "int \<Rightarrow> int \<Rightarrow> (int \<Rightarrow> 's \<Rightarrow> 's) \<Rightarrow> 's \<Rightarrow> 's" where
  "for_loop i n body s = (if i < n then for_loop (i + 1) n body (body i s) else s)"
  by pat_completeness auto
termination
  by (relation "measure (\<lambda>(i, n, body, s). nat (n - i))") auto

declare for_loop.simps [simp del]

text \<open>Modelled from the spec: \<^verbatim>\<open>GDALCopyWords\<close> of GDAL. It copies \<open>nWordCount\<close> words
  from the source, \<open>nSrcPixelOffset\<close> bytes apart, to the destination,
  \<open>nDstPixelOffset\<close> bytes apart, converting each from the source type to the
  destination type. A real word copied to a complex type gets a zero imaginary part;
  a complex word copied to a real type keeps its real part only.\<close>

definition read_word :: "src_ptr \<Rightarrow> GDALDataType \<Rightarrow> double \<times> double" where
  "read_word pSrc eSrcType =
    (case pSrc of (buf, off) \<Rightarrow>
      (buf off,
       if GDALDataTypeIsComplex eSrcType
       then buf (off + GDALGetDataTypeSize eSrcType div 8 div 2)
       else Finite 0))"

definition stored_word :: "GDALDataType \<Rightarrow> double \<Rightarrow> double \<Rightarrow> cell" where
  "stored_word eDstType re im =
     Stored eDstType re (if GDALDataTypeIsComplex eDstType then im else Finite 0)"

definition write_word :: "dst_ptr \<Rightarrow> GDALDataType \<Rightarrow> double \<times> double \<Rightarrow> dst_buffer" where
  "write_word pDst eDstType w =
    (case pDst of (buf, off) \<Rightarrow> buf(off := stored_word eDstType (fst w) (snd w)))"

definition GDALCopyWords ::
  "src_ptr \<Rightarrow> GDALDataType \<Rightarrow> int \<Rightarrow> dst_ptr \<Rightarrow> GDALDataType \<Rightarrow> int \<Rightarrow> int \<Rightarrow> dst_buffer" where
  "GDALCopyWords pSrcData eSrcType nSrcPixelOffset pDstData eDstType nDstPixelOffset nWordCount =
    for_loop 0 nWordCount
      (\<lambda>iWord buf.
         write_word (buf, snd pDstData + iWord * nDstPixelOffset) eDstType
           (read_word (fst pSrcData, snd pSrcData + iWord * nSrcPixelOffset) eSrcType))
      (fst pDstData)"

text \<open>The signature shared by all pixel functions: the sources and their number, the
  destination buffer, the tile extent, the two element types and the two destination
  strides. The result is the error code and the destination buffer after the call.\<close>

type_synonym pixel_func =
  "src_buffer list \<Rightarrow> int \<Rightarrow> dst_buffer \<Rightarrow> int \<Rightarrow> int \<Rightarrow> GDALDataType \<Rightarrow> GDALDataType
     \<Rightarrow> int \<Rightarrow> int \<Rightarrow> CPLErr \<times> dst_buffer"

text \<open>The caller's layout of the destination: samples of a row do not overlap and
  rows do not overlap.\<close>

definition dst_layout_ok :: "GDALDataType \<Rightarrow> int \<Rightarrow> int \<Rightarrow> int \<Rightarrow> bool" where
  "dst_layout_ok eBufType nXSize nPixelSpace nLineSpace =
    (0 < nPixelSpace \<and> GDALGetDataTypeSize eBufType div 8 \<le> nPixelSpace
     \<and> nXSize * nPixelSpace \<le> nLineSpace)"

text \<open>The comparison \<^verbatim>\<open>>=\<close> of C on \<^verbatim>\<open>double\<close>: false when an operand is a NaN.\<close>

definition dge :: "double \<Rightarrow> double \<Rightarrow> bool" where
  "dge x y = (\<not> is_nan x \<and> \<not> is_nan y \<and> \<not> dlt x y)"

text \<open>A destination buffer filled with a sentinel pattern before a call.\<close>

definition sentinel :: dst_buffer where
  "sentinel = (\<lambda>a. Stored GDT_Byte (Finite 255) (Finite 0))"


text \<open>Modelled from the spec: the conversion of a \<^verbatim>\<open>double\<close> into the destination type
  that \<^verbatim>\<open>GDALCopyWords\<close> of GDAL performs on each component of a word. An integer type
  takes the value rounded to the nearest integer, a tie away from zero, and clamped to
  the range of the type; a NaN becomes 0. A 32-bit float type takes the value rounded
  to the nearest number of the binary32 format, a 64-bit float type the value itself.\<close>

definition round_half_away :: "real \<Rightarrow> int" where
  "round_half_away r = (if 0 \<le> r then \<lfloor>r + 1 / 2\<rfloor> else \<lceil>r - 1 / 2\<rceil>)"




text \<open>A sample that holds an integer.\<close>

definition integer_valued :: "double \<Rightarrow> bool" where
  "integer_valued x = (\<not> is_nan x \<and> \<not> is_inf x \<and> dval x = of_int \<lfloor>dval x\<rfloor>)"

section \<open>The pixel functions\<close>

text \<open>
  Each definition follows the C function of the same name statement by statement. The
  loops over \<open>iLine\<close> and \<open>iCol\<close> are \<open>for_loop\<close>s; where the C loop header also
  advances the sample counter \<open>ii\<close>, the loop state is the pair of \<open>ii\<close> and the
  destination buffer. \<open>papoSources ! k\<close> is \<^verbatim>\<open>papoSources[k]\<close>; the caller passes
  \<open>nSources\<close> buffers.

  The C type \<^verbatim>\<open>int\<close> of the counters, extents and strides is the type of the
  integers: a tile so large that an offset leaves the range of 32 bits is not
  modelled. A source buffer holds some value at every offset, where C leaves a read
  outside the caller's buffer undefined.
\<close>

definition RealPixelFunc :: pixel_func where
  "RealPixelFunc papoSources nSources pData nXSize nYSize eSrcType eBufType nPixelSpace nLineSpace =
    (if nSources \<noteq> 1 then (CE_Failure, pData)
     else
       (let nPixelSpaceSrc = GDALGetDataTypeSize eSrcType div 8;
            nLineSpaceSrc = nPixelSpaceSrc * nXSize
        in (CE_None,
            for_loop 0 nYSize (\<lambda>iLine pData.
              GDALCopyWords (papoSources ! 0, nLineSpaceSrc * iLine) eSrcType nPixelSpaceSrc
                (pData, nLineSpace * iLine) eBufType nPixelSpace nXSize)
              pData)))"

definition ImagPixelFunc :: pixel_func where
  "ImagPixelFunc papoSources nSources pData nXSize nYSize eSrcType eBufType nPixelSpace nLineSpace =
    (if nSources \<noteq> 1 then (CE_Failure, pData)
     else if GDALDataTypeIsComplex eSrcType then
       (let nPixelSpaceSrc = GDALGetDataTypeSize eSrcType div 8;
            nLineSpaceSrc = nPixelSpaceSrc * nXSize;
            pImag = (papoSources ! 0, GDALGetDataTypeSize eSrcType div 8 div 2)
        in (CE_None,
            for_loop 0 nYSize (\<lambda>iLine pData.
              GDALCopyWords (fst pImag, snd pImag + nLineSpaceSrc * iLine) eSrcType nPixelSpaceSrc
                (pData, nLineSpace * iLine) eBufType nPixelSpace nXSize)
              pData))
     else
       (let dfImag = double_of_int 0
        in (CE_None,
            for_loop 0 nYSize (\<lambda>iLine pData.
              GDALCopyWords (double_array [dfImag], 0) eSrcType 0
                (pData, nLineSpace * iLine) eBufType nPixelSpace nXSize)
              pData)))"

definition ModulePixelFunc :: pixel_func where
  "ModulePixelFunc papoSources nSources pData nXSize nYSize eSrcType eBufType nPixelSpace nLineSpace =
    (if nSources \<noteq> 1 then (CE_Failure, pData)
     else if GDALDataTypeIsComplex eSrcType then
       (let pReal = (papoSources ! 0, 0);
            pImag = (papoSources ! 0, GDALGetDataTypeSize eSrcType div 8 div 2)
        in (CE_None,
            snd (for_loop 0 nYSize (\<lambda>iLine. for_loop 0 nXSize (\<lambda>iCol (ii, pData).
              (let dfReal = SRCVAL pReal eSrcType ii;
                   dfImag = SRCVAL pImag eSrcType ii;
                   dfPixVal = c_sqrt (dadd (dmul dfReal dfReal) (dmul dfImag dfImag))
               in (ii + 1,
                 GDALCopyWords (double_array [dfPixVal], 0) GDT_Float64 0
                   (pData, nLineSpace * iLine + iCol * nPixelSpace) eBufType nPixelSpace 1))))
           (0, pData))))
     else
       (CE_None,
            snd (for_loop 0 nYSize (\<lambda>iLine. for_loop 0 nXSize (\<lambda>iCol (ii, pData).
              (let dfPixVal =
                     double_of_int (c_abs (c_double_to_int (SRCVAL (papoSources ! 0, 0) eSrcType ii)))
               in (ii + 1,
                 GDALCopyWords (double_array [dfPixVal], 0) GDT_Float64 0
                   (pData, nLineSpace * iLine + iCol * nPixelSpace) eBufType nPixelSpace 1))))
           (0, pData))))"

definition PhasePixelFunc :: pixel_func where
  "PhasePixelFunc papoSources nSources pData nXSize nYSize eSrcType eBufType nPixelSpace nLineSpace =
    (if nSources \<noteq> 1 then (CE_Failure, pData)
     else if GDALDataTypeIsComplex eSrcType then
       (let pReal = (papoSources ! 0, 0);
            pImag = (papoSources ! 0, GDALGetDataTypeSize eSrcType div 8 div 2)
        in (CE_None,
            snd (for_loop 0 nYSize (\<lambda>iLine. for_loop 0 nXSize (\<lambda>iCol (ii, pData).
              (let dfReal = SRCVAL pReal eSrcType ii;
                   dfImag = SRCVAL pImag eSrcType ii;
                   dfPixVal = c_atan2 dfImag dfReal
               in (ii + 1,
                 GDALCopyWords (double_array [dfPixVal], 0) GDT_Float64 0
                   (pData, nLineSpace * iLine + iCol * nPixelSpace) eBufType nPixelSpace 1))))
           (0, pData))))
     else
       (let pi = c_atan2 (double_of_int 0) (double_of_int (- 1))
        in (CE_None,
            snd (for_loop 0 nYSize (\<lambda>iLine. for_loop 0 nXSize (\<lambda>iCol (ii, pData).
              (let pReal = (papoSources ! 0, 0);
                   dfReal = SRCVAL pReal eSrcType ii;
                   dfPixVal = (if dlt dfReal (double_of_int 0) then pi else double_of_int 0)
               in (ii + 1,
                 GDALCopyWords (double_array [dfPixVal], 0) GDT_Float64 (c_double_to_int dfPixVal)
                   (pData, nLineSpace * iLine + iCol * nPixelSpace) eBufType nPixelSpace 1))))
           (0, pData)))))"

definition ConjPixelFunc :: pixel_func where
  "ConjPixelFunc papoSources nSources pData nXSize nYSize eSrcType eBufType nPixelSpace nLineSpace =
    (if nSources \<noteq> 1 then (CE_Failure, pData)
     else if GDALDataTypeIsComplex eSrcType \<and> GDALDataTypeIsComplex eBufType then
       (let nOffset = GDALGetDataTypeSize eSrcType div 8 div 2;
            pReal = (papoSources ! 0, 0);
            pImag = (papoSources ! 0, nOffset)
        in (CE_None,
            snd (for_loop 0 nYSize (\<lambda>iLine. for_loop 0 nXSize (\<lambda>iCol (ii, pData).
              (let adfPixVal0 = SRCVAL pReal eSrcType ii;
                   adfPixVal1 = dneg (SRCVAL pImag eSrcType ii)
               in (ii + 1,
                 GDALCopyWords (double_array [adfPixVal0, adfPixVal1], 0) GDT_CFloat64 0
                   (pData, nLineSpace * iLine + iCol * nPixelSpace) eBufType nPixelSpace 1))))
           (0, pData))))
     else RealPixelFunc papoSources nSources pData nXSize nYSize eSrcType eBufType nPixelSpace nLineSpace)"

definition SumPixelFunc :: pixel_func where
  "SumPixelFunc papoSources nSources pData nXSize nYSize eSrcType eBufType nPixelSpace nLineSpace =
    (if nSources < 2 then (CE_Failure, pData)
     else if GDALDataTypeIsComplex eSrcType then
       (let nOffset = GDALGetDataTypeSize eSrcType div 8 div 2
        in (CE_None,
            snd (for_loop 0 nYSize (\<lambda>iLine. for_loop 0 nXSize (\<lambda>iCol (ii, pData).
              (let adfSum = for_loop 0 nSources (\<lambda>iSrc (adfSum0, adfSum1).
                       (let pReal = (papoSources ! nat iSrc, 0);
                            pImag = (fst pReal, snd pReal + nOffset)
                        in (dadd adfSum0 (SRCVAL pReal eSrcType ii),
                            dadd adfSum1 (SRCVAL pImag eSrcType ii))))
                     (double_of_int 0, double_of_int 0)
               in (ii + 1,
                 GDALCopyWords (double_array [fst adfSum, snd adfSum], 0) GDT_CFloat64 0
                   (pData, nLineSpace * iLine + iCol * nPixelSpace) eBufType nPixelSpace 1))))
           (0, pData))))
     else
       (CE_None,
            snd (for_loop 0 nYSize (\<lambda>iLine. for_loop 0 nXSize (\<lambda>iCol (ii, pData).
              (let dfSum = for_loop 0 nSources (\<lambda>iSrc dfSum.
                       dadd dfSum (SRCVAL (papoSources ! nat iSrc, 0) eSrcType ii))
                     (double_of_int 0)
               in (ii + 1,
                 GDALCopyWords (double_array [dfSum], 0) GDT_Float64 0
                   (pData, nLineSpace * iLine + iCol * nPixelSpace) eBufType nPixelSpace 1))))
           (0, pData))))"

definition DiffPixelFunc :: pixel_func where
  "DiffPixelFunc papoSources nSources pData nXSize nYSize eSrcType eBufType nPixelSpace nLineSpace =
    (if nSources \<noteq> 2 then (CE_Failure, pData)
     else if GDALDataTypeIsComplex eSrcType then
       (let nOffset = GDALGetDataTypeSize eSrcType div 8 div 2;
            pReal0 = (papoSources ! 0, 0);
            pImag0 = (papoSources ! 0, nOffset);
            pReal1 = (papoSources ! 1, 0);
            pImag1 = (papoSources ! 1, nOffset)
        in (CE_None,
            snd (for_loop 0 nYSize (\<lambda>iLine. for_loop 0 nXSize (\<lambda>iCol (ii, pData).
              (let adfPixVal0 = dsub (SRCVAL pReal0 eSrcType ii) (SRCVAL pReal1 eSrcType ii);
                   adfPixVal1 = dsub (SRCVAL pImag0 eSrcType ii) (SRCVAL pImag1 eSrcType ii)
               in (ii + 1,
                 GDALCopyWords (double_array [adfPixVal0, adfPixVal1], 0) GDT_CFloat64 0
                   (pData, nLineSpace * iLine + iCol * nPixelSpace) eBufType nPixelSpace 1))))
           (0, pData))))
     else
       (CE_None,
            snd (for_loop 0 nYSize (\<lambda>iLine. for_loop 0 nXSize (\<lambda>iCol (ii, pData).
              (let dfPixVal = dsub (SRCVAL (papoSources ! 0, 0) eSrcType ii)
                                     (SRCVAL (papoSources ! 1, 0) eSrcType ii)
               in (ii + 1,
                 GDALCopyWords (double_array [dfPixVal], 0) GDT_Float64 0
                   (pData, nLineSpace * iLine + iCol * nPixelSpace) eBufType nPixelSpace 1))))
           (0, pData))))"

definition MulPixelFunc :: pixel_func where
  "MulPixelFunc papoSources nSources pData nXSize nYSize eSrcType eBufType nPixelSpace nLineSpace =
    (if nSources < 2 then (CE_Failure, pData)
     else if GDALDataTypeIsComplex eSrcType then
       (let nOffset = GDALGetDataTypeSize eSrcType div 8 div 2
        in (CE_None,
            snd (for_loop 0 nYSize (\<lambda>iLine. for_loop 0 nXSize (\<lambda>iCol (ii, pData).
              (let adfPixVal = for_loop 0 nSources (\<lambda>iSrc (adfPixVal0, adfPixVal1).
                       (let pReal = (papoSources ! nat iSrc, 0);
                            pImag = (fst pReal, snd pReal + nOffset);
                            dfOldR = adfPixVal0;
                            dfOldI = adfPixVal1;
                            dfNewR = SRCVAL pReal eSrcType ii;
                            dfNewI = SRCVAL pImag eSrcType ii
                        in (dsub (dmul dfOldR dfNewR) (dmul dfOldI dfNewI),
                            dadd (dmul dfOldR dfNewI) (dmul dfOldI dfNewR))))
                     (Finite 1, Finite 0)
               in (ii + 1,
                 GDALCopyWords (double_array [fst adfPixVal, snd adfPixVal], 0) GDT_CFloat64 0
                   (pData, nLineSpace * iLine + iCol * nPixelSpace) eBufType nPixelSpace 1))))
           (0, pData))))
     else
       (CE_None,
            snd (for_loop 0 nYSize (\<lambda>iLine. for_loop 0 nXSize (\<lambda>iCol (ii, pData).
              (let dfPixVal = for_loop 0 nSources (\<lambda>iSrc dfPixVal.
                       dmul dfPixVal (SRCVAL (papoSources ! nat iSrc, 0) eSrcType ii))
                     (double_of_int 1)
               in (ii + 1,
                 GDALCopyWords (double_array [dfPixVal], 0) GDT_Float64 0
                   (pData, nLineSpace * iLine + iCol * nPixelSpace) eBufType nPixelSpace 1))))
           (0, pData))))"

definition CMulPixelFunc :: pixel_func where
  "CMulPixelFunc papoSources nSources pData nXSize nYSize eSrcType eBufType nPixelSpace nLineSpace =
    (if nSources \<noteq> 2 then (CE_Failure, pData)
     else if GDALDataTypeIsComplex eSrcType then
       (let nOffset = GDALGetDataTypeSize eSrcType div 8 div 2;
            pReal0 = (papoSources ! 0, 0);
            pImag0 = (papoSources ! 0, nOffset);
            pReal1 = (papoSources ! 1, 0);
            pImag1 = (papoSources ! 1, nOffset)
        in (CE_None,
            snd (for_loop 0 nYSize (\<lambda>iLine. for_loop 0 nXSize (\<lambda>iCol (ii, pData).
              (let dfReal0 = SRCVAL pReal0 eSrcType ii;
                   dfReal1 = SRCVAL pReal1 eSrcType ii;
                   dfImag0 = SRCVAL pImag0 eSrcType ii;
                   dfImag1 = SRCVAL pImag1 eSrcType ii;
                   adfPixVal0 = dadd (dmul dfReal0 dfReal1) (dmul dfImag0 dfImag1);
                   adfPixVal1 = dsub (dmul dfReal1 dfImag0) (dmul dfReal0 dfImag1)
               in (ii + 1,
                 GDALCopyWords (double_array [adfPixVal0, adfPixVal1], 0) GDT_CFloat64 0
                   (pData, nLineSpace * iLine + iCol * nPixelSpace) eBufType nPixelSpace 1))))
           (0, pData))))
     else
       (let adfPixVal1 = double_of_int 0
        in (CE_None,
            snd (for_loop 0 nYSize (\<lambda>iLine. for_loop 0 nXSize (\<lambda>iCol (ii, pData).
              (let adfPixVal0 = dmul (SRCVAL (papoSources ! 0, 0) eSrcType ii)
                                       (SRCVAL (papoSources ! 1, 0) eSrcType ii)
               in (ii + 1,
                 GDALCopyWords (double_array [adfPixVal0, adfPixVal1], 0) GDT_CFloat64 0
                   (pData, nLineSpace * iLine + iCol * nPixelSpace) eBufType nPixelSpace 1))))
           (0, pData)))))"

definition InvPixelFunc :: pixel_func where
  "InvPixelFunc papoSources nSources pData nXSize nYSize eSrcType eBufType nPixelSpace nLineSpace =
    (if nSources \<noteq> 1 then (CE_Failure, pData)
     else if GDALDataTypeIsComplex eSrcType then
       (let nOffset = GDALGetDataTypeSize eSrcType div 8 div 2;
            pReal = (papoSources ! 0, 0);
            pImag = (papoSources ! 0, nOffset)
        in (CE_None,
            snd (for_loop 0 nYSize (\<lambda>iLine. for_loop 0 nXSize (\<lambda>iCol (ii, pData).
              (let dfReal = SRCVAL pReal eSrcType ii;
                   dfImag = SRCVAL pImag eSrcType ii;
                   dfAux = dadd (dmul dfReal dfReal) (dmul dfImag dfImag);
                   adfPixVal0 = ddiv dfReal dfAux;
                   adfPixVal1 = ddiv (dneg dfImag) dfAux
               in (ii + 1,
                 GDALCopyWords (double_array [adfPixVal0, adfPixVal1], 0) GDT_CFloat64 0
                   (pData, nLineSpace * iLine + iCol * nPixelSpace) eBufType nPixelSpace 1))))
           (0, pData))))
     else
       (CE_None,
            snd (for_loop 0 nYSize (\<lambda>iLine. for_loop 0 nXSize (\<lambda>iCol (ii, pData).
              (let dfPixVal = ddiv (Finite 1) (SRCVAL (papoSources ! 0, 0) eSrcType ii)
               in (ii + 1,
                 GDALCopyWords (double_array [dfPixVal], 0) GDT_Float64 0
                   (pData, nLineSpace * iLine + iCol * nPixelSpace) eBufType nPixelSpace 1))))
           (0, pData))))"

definition IntensityPixelFunc :: pixel_func where
  "IntensityPixelFunc papoSources nSources pData nXSize nYSize eSrcType eBufType nPixelSpace nLineSpace =
    (if nSources \<noteq> 1 then (CE_Failure, pData)
     else if GDALDataTypeIsComplex eSrcType then
       (let nOffset = GDALGetDataTypeSize eSrcType div 8 div 2;
            pReal = (papoSources ! 0, 0);
            pImag = (papoSources ! 0, nOffset)
        in (CE_None,
            snd (for_loop 0 nYSize (\<lambda>iLine. for_loop 0 nXSize (\<lambda>iCol (ii, pData).
              (let dfReal = SRCVAL pReal eSrcType ii;
                   dfImag = SRCVAL pImag eSrcType ii;
                   dfPixVal = dadd (dmul dfReal dfReal) (dmul dfImag dfImag)
               in (ii + 1,
                 GDALCopyWords (double_array [dfPixVal], 0) GDT_Float64 0
                   (pData, nLineSpace * iLine + iCol * nPixelSpace) eBufType nPixelSpace 1))))
           (0, pData))))
     else
       (CE_None,
            snd (for_loop 0 nYSize (\<lambda>iLine. for_loop 0 nXSize (\<lambda>iCol (ii, pData).
              (let dfPixVal = SRCVAL (papoSources ! 0, 0) eSrcType ii;
                   dfPixVal = dmul dfPixVal dfPixVal
               in (ii + 1,
                 GDALCopyWords (double_array [dfPixVal], 0) GDT_Float64 0
                   (pData, nLineSpace * iLine + iCol * nPixelSpace) eBufType nPixelSpace 1))))
           (0, pData))))"

definition SqrtPixelFunc :: pixel_func where
  "SqrtPixelFunc papoSources nSources pData nXSize nYSize eSrcType eBufType nPixelSpace nLineSpace =
    (if nSources \<noteq> 1 then (CE_Failure, pData)
     else if GDALDataTypeIsComplex eSrcType then (CE_Failure, pData)
     else
       (CE_None,
            snd (for_loop 0 nYSize (\<lambda>iLine. for_loop 0 nXSize (\<lambda>iCol (ii, pData).
              (let dfPixVal = c_sqrt (SRCVAL (papoSources ! 0, 0) eSrcType ii)
               in (ii + 1,
                 GDALCopyWords (double_array [dfPixVal], 0) GDT_Float64 0
                   (pData, nLineSpace * iLine + iCol * nPixelSpace) eBufType nPixelSpace 1))))
           (0, pData))))"

definition Log10PixelFunc :: pixel_func where
  "Log10PixelFunc papoSources nSources pData nXSize nYSize eSrcType eBufType nPixelSpace nLineSpace =
    (if nSources \<noteq> 1 then (CE_Failure, pData)
     else if GDALDataTypeIsComplex eSrcType then
       (let nOffset = GDALGetDataTypeSize eSrcType div 8 div 2;
            pReal = (papoSources ! 0, 0);
            pImag = (papoSources ! 0, nOffset)
        in (CE_None,
            snd (for_loop 0 nYSize (\<lambda>iLine. for_loop 0 nXSize (\<lambda>iCol (ii, pData).
              (let dfReal = SRCVAL pReal eSrcType ii;
                   dfImag = SRCVAL pImag eSrcType ii;
                   dfPixVal = c_log10 (dadd (dmul dfReal dfReal) (dmul dfImag dfImag))
               in (ii + 1,
                 GDALCopyWords (double_array [dfPixVal], 0) GDT_Float64 0
                   (pData, nLineSpace * iLine + iCol * nPixelSpace) eBufType nPixelSpace 1))))
           (0, pData))))
     else
       (CE_None,
            snd (for_loop 0 nYSize (\<lambda>iLine. for_loop 0 nXSize (\<lambda>iCol (ii, pData).
              (let dfPixVal = SRCVAL (papoSources ! 0, 0) eSrcType ii;
                   dfPixVal = c_log10 (double_of_int (c_abs (c_double_to_int dfPixVal)))
               in (ii + 1,
                 GDALCopyWords (double_array [dfPixVal], 0) GDT_Float64 0
                   (pData, nLineSpace * iLine + iCol * nPixelSpace) eBufType nPixelSpace 1))))
           (0, pData))))"

definition PowPixelFuncHelper :: "src_buffer list \<Rightarrow> int \<Rightarrow> dst_buffer \<Rightarrow> int \<Rightarrow> int \<Rightarrow> GDALDataType \<Rightarrow> GDALDataType
     \<Rightarrow> int \<Rightarrow> int \<Rightarrow> double \<Rightarrow> double \<Rightarrow> CPLErr \<times> dst_buffer" where
  "PowPixelFuncHelper papoSources nSources pData nXSize nYSize eSrcType eBufType nPixelSpace nLineSpace base fact' =
    (if nSources \<noteq> 1 then (CE_Failure, pData)
     else if GDALDataTypeIsComplex eSrcType then (CE_Failure, pData)
     else
       (CE_None,
            snd (for_loop 0 nYSize (\<lambda>iLine. for_loop 0 nXSize (\<lambda>iCol (ii, pData).
              (let dfPixVal = SRCVAL (papoSources ! 0, 0) eSrcType ii;
                   dfPixVal = c_pow base (ddiv dfPixVal fact')
               in (ii + 1,
                 GDALCopyWords (double_array [dfPixVal], 0) GDT_Float64 0
                   (pData, nLineSpace * iLine + iCol * nPixelSpace) eBufType nPixelSpace 1))))
           (0, pData))))"

definition dB2AmpPixelFunc :: pixel_func where
  "dB2AmpPixelFunc papoSources nSources pData nXSize nYSize eSrcType eBufType nPixelSpace nLineSpace =
     PowPixelFuncHelper papoSources nSources pData nXSize nYSize eSrcType eBufType nPixelSpace nLineSpace (Finite 10) (Finite 20)"

definition dB2PowPixelFunc :: pixel_func where
  "dB2PowPixelFunc papoSources nSources pData nXSize nYSize eSrcType eBufType nPixelSpace nLineSpace =
     PowPixelFuncHelper papoSources nSources pData nXSize nYSize eSrcType eBufType nPixelSpace nLineSpace (Finite 10) (Finite 10)"

text \<open>The macro \<^verbatim>\<open>PI\<close> of the Nansat pixel functions is the literal \<^verbatim>\<open>3.14159265\<close>, a
  constant of type \<^verbatim>\<open>double\<close>: the number of the binary64 format nearest to it.\<close>

definition PI :: double where
  "PI = round_to_double 3.14159265"

definition BetaSigmaToIncidence :: pixel_func where
  "BetaSigmaToIncidence papoSources nSources pData nXSize nYSize eSrcType eBufType nPixelSpace nLineSpace =
    (if nSources \<noteq> 2 then (CE_Failure, pData)
     else
       (CE_None,
            for_loop 0 nYSize (\<lambda>iLine. for_loop 0 nXSize (\<lambda>iCol pData.
              (let ii = iLine * nXSize + iCol;
                   beta0 = SRCVAL (papoSources ! 0, 0) eSrcType ii;
                   sigma0 = SRCVAL (papoSources ! 1, 0) eSrcType ii;
                   incidence =
                     (if dne beta0 (double_of_int 0)
                      then ddiv (dmul (c_asin (ddiv sigma0 beta0)) (double_of_int 180)) PI
                      else double_of_int 0)
               in GDALCopyWords (double_array [incidence], 0) GDT_Float64 0
                   (pData, nLineSpace * iLine + iCol * nPixelSpace) eBufType nPixelSpace 1)))
           pData))"

definition UVToMagnitude :: pixel_func where
  "UVToMagnitude papoSources nSources pData nXSize nYSize eSrcType eBufType nPixelSpace nLineSpace =
    (if nSources \<noteq> 2 then (CE_Failure, pData)
     else
       (CE_None,
            for_loop 0 nYSize (\<lambda>iLine. for_loop 0 nXSize (\<lambda>iCol pData.
              (let ii = iLine * nXSize + iCol;
                   u = SRCVAL (papoSources ! 0, 0) eSrcType ii;
                   v = SRCVAL (papoSources ! 1, 0) eSrcType ii;
                   magnitude = c_sqrt (dadd (dmul u u) (dmul v v))
               in GDALCopyWords (double_array [magnitude], 0) GDT_Float64 0
                   (pData, nLineSpace * iLine + iCol * nPixelSpace) eBufType nPixelSpace 1)))
           pData))"

definition UVToDirectionTo :: pixel_func where
  "UVToDirectionTo papoSources nSources pData nXSize nYSize eSrcType eBufType nPixelSpace nLineSpace =
    (if nSources \<noteq> 2 then (CE_Failure, pData)
     else
       (CE_None,
            for_loop 0 nYSize (\<lambda>iLine. for_loop 0 nXSize (\<lambda>iCol pData.
              (let ii = iLine * nXSize + iCol;
                   u = SRCVAL (papoSources ! 0, 0) eSrcType ii;
                   v = SRCVAL (papoSources ! 1, 0) eSrcType ii;
                   winddir_to = ddiv (dmul (c_atan2 (dneg u) (dneg v)) (double_of_int 180)) PI;
                   winddir_to = dadd winddir_to (double_of_int 180)
               in GDALCopyWords (double_array [winddir_to], 0) GDT_Float64 0
                   (pData, nLineSpace * iLine + iCol * nPixelSpace) eBufType nPixelSpace 1)))
           pData))"

definition UVToDirectionFrom :: pixel_func where
  "UVToDirectionFrom papoSources nSources pData nXSize nYSize eSrcType eBufType nPixelSpace nLineSpace =
    (if nSources \<noteq> 2 then (CE_Failure, pData)
     else
       (CE_None,
            for_loop 0 nYSize (\<lambda>iLine. for_loop 0 nXSize (\<lambda>iCol pData.
              (let ii = iLine * nXSize + iCol;
                   u = SRCVAL (papoSources ! 0, 0) eSrcType ii;
                   v = SRCVAL (papoSources ! 1, 0) eSrcType ii;
                   winddir_from = ddiv (dmul (c_atan2 u v) (double_of_int 180)) PI;
                   winddir_from = dadd winddir_from (double_of_int 180)
               in GDALCopyWords (double_array [winddir_from], 0) GDT_Float64 0
                   (pData, nLineSpace * iLine + iCol * nPixelSpace) eBufType nPixelSpace 1)))
           pData))"

definition Sigma0HHIncidenceToSigma0VV :: pixel_func where
  "Sigma0HHIncidenceToSigma0VV papoSources nSources pData nXSize nYSize eSrcType eBufType nPixelSpace nLineSpace =
    (if nSources \<noteq> 2 then (CE_Failure, pData)
     else
       (CE_None,
            for_loop 0 nYSize (\<lambda>iLine. for_loop 0 nXSize (\<lambda>iCol pData.
              (let ii = iLine * nXSize + iCol;
                   sigma0HH = SRCVAL (papoSources ! 0, 0) eSrcType ii;
                   incidence_angle = dmul (SRCVAL (papoSources ! 1, 0) eSrcType ii) PI;
                   incidence_angle = ddiv incidence_angle (double_of_int 180);
                   factor = c_pow
                     (ddiv (dadd (double_of_int 1)
                              (dmul (double_of_int 2) (c_pow (c_tan incidence_angle) (double_of_int 2))))
                           (dadd (double_of_int 1)
                              (dmul (round_to_double 0.6) (c_pow (c_tan incidence_angle) (double_of_int 2)))))
                     (double_of_int 2);
                   sigma0VV = dmul sigma0HH factor
               in GDALCopyWords (double_array [sigma0VV], 0) GDT_Float64 0
                   (pData, nLineSpace * iLine + iCol * nPixelSpace) eBufType nPixelSpace 1)))
           pData))"

section \<open>Loops over a tile\<close>

text \<open>
  Every pixel function visits the samples of the tile row by row and stores one element
  per sample at the byte offset \<open>nLineSpace * iLine + iCol * nPixelSpace\<close>. The lemmas
  of this section say what such a loop nest leaves in the buffer.
\<close>

lemma for_loop_done: "n \<le> i \<Longrightarrow> for_loop i n body s = s"
  by (subst for_loop.simps) simp

lemma for_loop_step: "i < n \<Longrightarrow> for_loop i n body s = for_loop (i + 1) n body (body i s)"
  by (subst for_loop.simps) simp

lemma for_loop_one: "for_loop 0 1 body s = body 0 s"
  by (simp add: for_loop_step for_loop_done)

lemma GDALCopyWords_one:
  "GDALCopyWords pSrc eSrcType nSrcPixelOffset (buf, off) eDstType nDstPixelOffset 1 =
     buf(off := stored_word eDstType (fst (read_word pSrc eSrcType)) (snd (read_word pSrc eSrcType)))"
  by (simp add: GDALCopyWords_def for_loop_one write_word_def)

lemma read_word_double [simp]:
  "read_word (double_array [v], 0) GDT_Float64 = (v, Finite 0)"
  by (simp add: read_word_def double_array_def array_of_def)

lemma read_word_cdouble [simp]:
  "read_word (double_array [a, b], 0) GDT_CFloat64 = (a, b)"
  by (simp add: read_word_def double_array_def array_of_def)

text \<open>A row of single-cell writes.\<close>

lemma row_frame:
  "(\<And>k. j \<le> k \<Longrightarrow> k < n \<Longrightarrow> a k \<noteq> x) \<Longrightarrow>
     for_loop j n (\<lambda>k (d::dst_buffer). d(a k := v k)) d0 x = d0 x"
proof (induction "nat (n - j)" arbitrary: j d0)
  case 0
  then show ?case by (simp add: for_loop_done)
next
  case (Suc m)
  then have "j < n" by simp
  moreover have "for_loop (j + 1) n (\<lambda>k d. d(a k := v k)) (d0(a j := v j)) x = (d0(a j := v j)) x"
    using Suc.hyps(2) Suc.prems by (intro Suc.hyps(1)) auto
  ultimately show ?case using Suc.prems[of j] by (simp add: for_loop_step)
qed

lemma row_val:
  "j \<le> k \<Longrightarrow> k < n \<Longrightarrow> (\<And>k'. k < k' \<Longrightarrow> k' < n \<Longrightarrow> a k' \<noteq> a k) \<Longrightarrow>
     for_loop j n (\<lambda>k (d::dst_buffer). d(a k := v k)) d0 (a k) = v k"
proof (induction "nat (n - j)" arbitrary: j d0)
  case 0
  then show ?case by simp
next
  case (Suc m)
  show ?case
  proof (cases "j = k")
    case True
    have "for_loop (k + 1) n (\<lambda>k d. d(a k := v k)) (d0(a k := v k)) (a k) = (d0(a k := v k)) (a k)"
      using Suc.prems by (intro row_frame) auto
    then show ?thesis using True Suc.prems by (simp add: for_loop_step)
  next
    case False
    then have "j + 1 \<le> k" using Suc.prems by simp
    moreover have "m = nat (n - (j + 1))" using Suc.hyps(2) by simp
    ultimately have "for_loop (j + 1) n (\<lambda>k d. d(a k := v k)) (d0(a j := v j)) (a k) = v k"
      using Suc.prems by (intro Suc.hyps(1)) auto
    then show ?thesis using Suc.prems by (simp add: for_loop_step)
  qed
qed

lemma tile_frame:
  "(\<And>r c. i \<le> r \<Longrightarrow> r < H \<Longrightarrow> 0 \<le> c \<Longrightarrow> c < W \<Longrightarrow> a r c \<noteq> x) \<Longrightarrow>
     for_loop i H (\<lambda>r. for_loop 0 W (\<lambda>c (d::dst_buffer). d(a r c := v r c))) d0 x = d0 x"
proof (induction "nat (H - i)" arbitrary: i d0)
  case 0
  then show ?case by (simp add: for_loop_done)
next
  case (Suc m)
  let ?row = "\<lambda>r. for_loop 0 W (\<lambda>c (d::dst_buffer). d(a r c := v r c))"
  have lt: "i < H" using Suc.hyps(2) by simp
  have "for_loop (i + 1) H ?row (?row i d0) x = ?row i d0 x"
    using Suc.hyps(2) Suc.prems by (intro Suc.hyps(1)) auto
  also have "\<dots> = d0 x"
    using Suc.prems lt by (intro row_frame) auto
  finally show ?case using lt by (simp add: for_loop_step)
qed

lemma tile_val:
  assumes "i \<le> r" "r < H" "0 \<le> c" "c < W"
    and inj: "\<And>r' c'. i \<le> r' \<Longrightarrow> r' < H \<Longrightarrow> 0 \<le> c' \<Longrightarrow> c' < W \<Longrightarrow> (r', c') \<noteq> (r, c)
                \<Longrightarrow> a r' c' \<noteq> a r c"
  shows "for_loop i H (\<lambda>r. for_loop 0 W (\<lambda>c (d::dst_buffer). d(a r c := v r c))) d0 (a r c)
           = v r c"
  using assms
proof (induction "nat (H - i)" arbitrary: i d0)
  case 0
  then show ?case by simp
next
  case (Suc m)
  let ?row = "\<lambda>r. for_loop 0 W (\<lambda>c (d::dst_buffer). d(a r c := v r c))"
  have lt: "i < H" using Suc.hyps(2) by simp
  show ?case
  proof (cases "i = r")
    case True
    have "for_loop (r + 1) H ?row (?row r d0) (a r c) = ?row r d0 (a r c)"
      using Suc.prems by (intro tile_frame) auto
    also have "\<dots> = v r c"
      using Suc.prems True by (intro row_val) auto
    finally show ?thesis using True lt by (simp add: for_loop_step)
  next
    case False
    then have "i + 1 \<le> r" using Suc.prems by simp
    moreover have "m = nat (H - (i + 1))" using Suc.hyps(2) by simp
    ultimately have "for_loop (i + 1) H ?row (?row i d0) (a r c) = v r c"
      using Suc.prems by (intro Suc.hyps(1)) auto
    then show ?thesis using lt by (simp add: for_loop_step)
  qed
qed

lemma inner_ii:
  "for_loop j n (\<lambda>iCol (ii, d::dst_buffer). (ii + 1, d(a iCol := g iCol ii))) (ii0, d0) =
     (ii0 + max 0 (n - j), for_loop j n (\<lambda>iCol d. d(a iCol := g iCol (ii0 + (iCol - j)))) d0)"
proof (induction "nat (n - j)" arbitrary: j ii0 d0)
  case 0
  then show ?case by (simp add: for_loop_done)
next
  case (Suc m)
  have lt: "j < n" using Suc.hyps(2) by simp
  have m: "m = nat (n - (j + 1))" using Suc.hyps(2) by simp
  show ?case
    using lt by (simp add: for_loop_step[OF lt] Suc.hyps(1)[OF m] max_def)
qed

lemma outer_ii:
  assumes "0 \<le> W"
  shows "for_loop i H (\<lambda>r. for_loop 0 W (\<lambda>c (ii, d::dst_buffer). (ii + 1, d(a r c := g r c ii))))
           (ii0, d0) =
     (ii0 + max 0 (H - i) * W,
      for_loop i H (\<lambda>r. for_loop 0 W (\<lambda>c d. d(a r c := g r c (ii0 + (r - i) * W + c)))) d0)"
proof (induction "nat (H - i)" arbitrary: i ii0 d0)
  case 0
  then show ?case by (simp add: for_loop_done)
next
  case (Suc m)
  have lt: "i < H" using Suc.hyps(2) by simp
  have m: "m = nat (H - (i + 1))" using Suc.hyps(2) by simp
  have row: "for_loop 0 W (\<lambda>c (ii, d::dst_buffer). (ii + 1, d(a i c := g i c ii))) (ii0, d0) =
      (ii0 + W, for_loop 0 W (\<lambda>c d. d(a i c := g i c (ii0 + (i - i) * W + c))) d0)"
    using assms by (simp add: inner_ii)
  have idx: "\<And>r c. ii0 + W + (r - (i + 1)) * W + c = ii0 + (r - i) * W + c"
    by (simp add: algebra_simps)
  have cnt: "ii0 + W + max 0 (H - (i + 1)) * W = ii0 + max 0 (H - i) * W"
    using lt by (simp add: max_def algebra_simps)
  show ?case
    by (simp only: for_loop_step[OF lt] row Suc.hyps(1)[OF m] idx cnt)
qed

lemma layout_distinct:
  fixes ps ls W r c r' c' :: int
  assumes "0 < ps" "W * ps \<le> ls" "0 \<le> c" "c < W" "0 \<le> c'" "c' < W"
    and eq: "ls * r' + c' * ps = ls * r + c * ps"
  shows "r' = r \<and> c' = c"
proof -
  have c: "0 \<le> c * ps" "c * ps < W * ps" "0 \<le> c' * ps" "c' * ps < W * ps"
    using assms by (simp_all add: mult_strict_right_mono)
  then have ls: "0 < ls" using assms by linarith
  have "r' = r"
  proof (rule ccontr)
    assume "r' \<noteq> r"
    then consider "r + 1 \<le> r'" | "r' + 1 \<le> r" by linarith
    then show False
    proof cases
      case 1
      then have "ls * (r + 1) \<le> ls * r'" using ls by (intro mult_left_mono) auto
      then show False using c eq assms(2) by (simp add: algebra_simps)
    next
      case 2
      then have "ls * (r' + 1) \<le> ls * r" using ls by (intro mult_left_mono) auto
      then show False using c eq assms(2) by (simp add: algebra_simps)
    qed
  qed
  then show ?thesis using eq assms(1) by simp
qed

lemma tile_write:
  assumes "0 < ps" "W * ps \<le> ls" "0 \<le> r" "r < H" "0 \<le> c" "c < W"
  shows "for_loop 0 H (\<lambda>iLine. for_loop 0 W (\<lambda>iCol (d::dst_buffer).
            d(ls * iLine + iCol * ps := v iLine iCol))) d0 (ls * r + c * ps)
          = v r c"
proof (rule tile_val[where a = "\<lambda>r c. ls * r + c * ps"])
  fix r' c' :: int
  assume "0 \<le> c'" "c' < W" "(r', c') \<noteq> (r, c)"
  then show "ls * r' + c' * ps \<noteq> ls * r + c * ps"
    using layout_distinct[OF assms(1,2,5,6), of c' r' r] by blast
qed (use assms in simp_all)

lemma tile_write_ii:
  assumes "0 < ps" "W * ps \<le> ls" "0 \<le> r" "r < H" "0 \<le> c" "c < W"
  shows "snd (for_loop 0 H (\<lambda>iLine. for_loop 0 W (\<lambda>iCol (ii, d::dst_buffer).
            (ii + 1, d(ls * iLine + iCol * ps := g iLine iCol ii)))) (0, d0)) (ls * r + c * ps)
          = g r c (r * W + c)"
proof -
  have W: "0 \<le> W" using assms by simp
  show ?thesis
    using tile_write[OF assms, of "\<lambda>iLine iCol. g iLine iCol (0 + (iLine - 0) * W + iCol)" d0]
    by (simp add: outer_ii[OF W])
qed

lemma stored_word_real [simp]: "stored_word t v (Finite 0) = Stored t v (Finite 0)"
  by (simp add: stored_word_def)

text \<open>Unfolding the operations of \<^verbatim>\<open>double\<close> and the sample reads at concrete values.\<close>

lemmas double_defs =
  is_nan_def is_inf_def is_zero_def zero_signed_def inf_signed_def finite_signed_def
  angle_signed_def double_of_int_def dlt_def dge_def dne_def dneg_def dadd_def dsub_def
  dmul_def ddiv_def round_signed_def

lemmas sample_defs = SRCVAL_def array_of_def

lemma c_atan2_0_m1: "c_atan2 (double_of_int 0) (double_of_int (- 1)) = Finite pi"
  by (simp add: c_atan2_def double_defs)

section \<open>Rounding\<close>

text \<open>
  What the rounding of the arithmetic operations keeps: a number of the format is not
  changed, the error is at most half a unit in the last place, a result of magnitude
  \<open>2 ^ 1024\<close> or more is an infinity, and every result is a multiple of the smallest
  subnormal number.
\<close>

lemma round_half_even_int [simp]: "round_half_even (of_int n) = n"
  by (simp add: round_half_even_def)

lemma round_half_even_error: "\<bar>of_int (round_half_even m) - m\<bar> \<le> 1 / 2"
proof -
  have "of_int \<lfloor>m\<rfloor> \<le> m" "m < of_int \<lfloor>m\<rfloor> + 1" by linarith+
  then show ?thesis
    by (auto simp: round_half_even_def Let_def)
qed

lemma round_half_even_ge: "of_int z \<le> m \<Longrightarrow> z \<le> round_half_even m"
proof -
  assume "of_int z \<le> m"
  then have "z \<le> \<lfloor>m\<rfloor>" by (simp add: le_floor_iff)
  then show ?thesis by (auto simp: round_half_even_def Let_def)
qed

lemma round_half_even_le: "m \<le> of_int z \<Longrightarrow> round_half_even m \<le> z"
proof -
  assume a: "m \<le> of_int z"
  show ?thesis
  proof (cases "m = of_int \<lfloor>m\<rfloor>")
    case True
    then have "round_half_even m = \<lfloor>m\<rfloor>"
      by (metis round_half_even_int)
    then show ?thesis using a by (simp add: floor_le_iff)
  next
    case False
    then have "of_int \<lfloor>m\<rfloor> < m" by linarith
    then have "\<lfloor>m\<rfloor> < z" using a by linarith
    then show ?thesis by (auto simp: round_half_even_def Let_def)
  qed
qed

lemma two_powr_powi: "(2::real) powr of_int k = 2 powi k"
  by (simp add: powr_real_of_int power_int_def power_one_over inverse_eq_divide)

lemma floor_log2_eq:
  assumes "2 powi k \<le> x" "x < 2 powi (k + 1)"
  shows "\<lfloor>log 2 x\<rfloor> = k"
proof -
  have "0 < x" using assms(1) by (smt (verit) zero_less_power_int zero_less_numeral)
  then show ?thesis
    using assms floor_log_eq_powr_iff[of x 2 k] two_powr_powi[of k] two_powr_powi[of "k + 1"]
    by simp
qed

lemma floor_log2_less:
  assumes "0 < x" "x < 2 powi j"
  shows "\<lfloor>log 2 x\<rfloor> < j"
proof -
  have "log 2 x < of_int j"
    using assms two_powr_powi[of j] by (simp add: log_less_iff)
  then show ?thesis by (simp add: floor_less_iff)
qed

lemma floor_log2_ge:
  assumes "2 powi j \<le> x"
  shows "j \<le> \<lfloor>log 2 x\<rfloor>"
proof -
  have "0 < x" using assms by (smt (verit) zero_less_power_int zero_less_numeral)
  then have "of_int j \<le> log 2 x"
    using assms two_powr_powi[of j] by (simp add: le_log_iff)
  then show ?thesis by (simp add: le_floor_iff)
qed

lemma floor_log2_bounds:
  assumes "0 < x"
  shows "2 powi \<lfloor>log 2 x\<rfloor> \<le> x" "x < 2 powi (\<lfloor>log 2 x\<rfloor> + 1)"
  using assms floor_log_eq_powr_iff[of x 2 "\<lfloor>log 2 x\<rfloor>"] two_powr_powi[of "\<lfloor>log 2 x\<rfloor>"]
    two_powr_powi[of "\<lfloor>log 2 x\<rfloor> + 1"]
  by simp_all

lemma round_to_format_exact:
  assumes n: "n \<noteq> 0" "\<bar>n\<bar> < 2 ^ p" and p: "0 < p"
    and k: "emin - (int p - 1) \<le> k"
    and r: "r = of_int n * 2 powi k" "\<bar>r\<bar> < 2 powi (emax + 1)"
  shows "round_to_format p emin emax r = Finite r"
proof -
  have r0: "r \<noteq> 0" using n r by simp
  then have pos: "0 < \<bar>r\<bar>" by simp
  define e where "e = max emin \<lfloor>log 2 \<bar>r\<bar>\<rfloor>"
  define u :: real where "u = 2 powi (e - (int p - 1))"
  have u: "0 < u" by (simp add: u_def)
  have "\<bar>r\<bar> = of_int \<bar>n\<bar> * 2 powi k" using r by (simp add: abs_mult)
  also have "\<dots> < 2 ^ p * 2 powi k"
  proof -
    have "(of_int \<bar>n\<bar> :: real) < of_int (2 ^ p)" using n(2) by (simp only: of_int_less_iff)
    then show ?thesis by (intro mult_strict_right_mono) simp_all
  qed
  also have "\<dots> = 2 powi (int p + k)" by (simp add: power_int_add)
  finally have "\<lfloor>log 2 \<bar>r\<bar>\<rfloor> < int p + k" using pos by (intro floor_log2_less)
  then have e: "e - (int p - 1) \<le> k" using k by (simp add: e_def)
  define j where "j = nat (k - (e - (int p - 1)))"
  have kj: "k = (e - (int p - 1)) + int j" using e by (simp add: j_def)
  have "(2::real) powi k = u * 2 ^ j"
    by (subst kj) (simp add: power_int_add u_def)
  then have "r = of_int (n * 2 ^ j) * u" using r(1) by simp
  then have q: "r / u = of_int (n * 2 ^ j)" using u by (simp add: field_simps)
  have y: "of_int (round_half_even (r / u)) * u = r"
    unfolding q round_half_even_int using q u by (simp add: field_simps)
  show ?thesis
    using r0 r(2) y
    by (simp add: round_to_format_def Let_def finite_signed_def flip: e_def u_def)
qed

lemma round_to_format_error:
  assumes r0: "r \<noteq> 0" and rj: "\<bar>r\<bar> < 2 powi j" and j: "emin < j" "j \<le> emax"
  shows "\<exists>y. round_to_format p emin emax r = finite_signed (r < 0) y
             \<and> \<bar>y - r\<bar> \<le> 2 powi (j - int p)"
proof -
  have pos: "0 < \<bar>r\<bar>" using r0 by simp
  define e where "e = max emin \<lfloor>log 2 \<bar>r\<bar>\<rfloor>"
  define u :: real where "u = 2 powi (e - (int p - 1))"
  define y where "y = of_int (round_half_even (r / u)) * u"
  have u: "0 < u" by (simp add: u_def)
  have "\<lfloor>log 2 \<bar>r\<bar>\<rfloor> < j" using pos rj by (rule floor_log2_less)
  then have e: "e \<le> j - 1" using j by (simp add: e_def)
  have "u \<le> 2 powi (j - int p)"
    unfolding u_def using e by (intro power_int_increasing) simp_all
  moreover have "\<bar>y - r\<bar> \<le> u / 2"
  proof -
    have "y - r = (of_int (round_half_even (r / u)) - r / u) * u"
      using u by (simp add: y_def field_simps)
    then have "\<bar>y - r\<bar> = \<bar>of_int (round_half_even (r / u)) - r / u\<bar> * u"
      using u by (simp add: abs_mult)
    also have "\<dots> \<le> 1 / 2 * u"
      using round_half_even_error[of "r / u"] u by (intro mult_right_mono) simp_all
    finally show ?thesis by simp
  qed
  ultimately have err: "\<bar>y - r\<bar> \<le> 2 powi (j - int p) / 2" "\<bar>y - r\<bar> \<le> 2 powi (j - int p)"
    using u by linarith+
  have "(2::real) powi (j - int p) \<le> 2 powi j"
    by (intro power_int_increasing) simp_all
  then have "\<bar>y\<bar> < 2 * 2 powi j" using err(1) rj by linarith
  also have "\<dots> = 2 powi (j + 1)" by (simp add: power_int_add)
  also have "\<dots> \<le> 2 powi (emax + 1)"
    using j by (intro power_int_increasing) simp_all
  finally have "\<not> 2 powi (emax + 1) \<le> \<bar>y\<bar>" by simp
  then have "round_to_format p emin emax r = finite_signed (r < 0) y"
    using r0 by (simp add: round_to_format_def Let_def flip: e_def u_def y_def)
  then show ?thesis using err(2) by blast
qed

lemma round_to_format_grid:
  "\<exists>M. dval (round_to_format p emin emax r) = of_int M * 2 powi (emin - (int p - 1))"
proof (cases "r = 0")
  case True
  then show ?thesis by (auto simp: round_to_format_def intro: exI[of _ 0])
next
  case False
  define e where "e = max emin \<lfloor>log 2 \<bar>r\<bar>\<rfloor>"
  define u :: real where "u = 2 powi (e - (int p - 1))"
  define y where "y = of_int (round_half_even (r / u)) * u"
  define i where "i = nat (e - emin)"
  have ei: "e - (int p - 1) = (emin - (int p - 1)) + int i" by (simp add: i_def e_def)
  have "u = 2 powi ((emin - (int p - 1)) + int i)"
    unfolding u_def by (simp only: ei)
  also have "\<dots> = 2 powi (emin - (int p - 1)) * 2 powi int i"
    by (rule power_int_add) simp
  finally have "u = 2 powi (emin - (int p - 1)) * 2 ^ i"
    by (simp only: power_int_of_nat)
  then have y: "y = of_int (round_half_even (r / u) * 2 ^ i) * 2 powi (emin - (int p - 1))"
    by (simp add: y_def)
  have "round_to_format p emin emax r = inf_signed (r < 0)
        \<or> round_to_format p emin emax r = finite_signed (r < 0) y"
    using False by (simp add: round_to_format_def Let_def flip: e_def u_def y_def)
  then show ?thesis
  proof
    assume "round_to_format p emin emax r = inf_signed (r < 0)"
    then show ?thesis by (auto simp: inf_signed_def intro: exI[of _ 0])
  next
    assume "round_to_format p emin emax r = finite_signed (r < 0) y"
    then have "dval (round_to_format p emin emax r) = y"
      by (simp add: finite_signed_def zero_signed_def)
    then show ?thesis using y by blast
  qed
qed

lemma round_to_format_not_NegZero:
  assumes "2 powi (emin - int p) < \<bar>r\<bar>" and p: "0 < p"
  shows "round_to_format p emin emax r \<noteq> NegZero"
proof -
  have pos: "0 < \<bar>r\<bar>"
    using assms by (smt (verit) zero_less_power_int zero_less_numeral)
  then have r0: "r \<noteq> 0" by simp
  define e where "e = max emin \<lfloor>log 2 \<bar>r\<bar>\<rfloor>"
  define u :: real where "u = 2 powi (e - (int p - 1))"
  define y where "y = of_int (round_half_even (r / u)) * u"
  have u: "0 < u" by (simp add: u_def)
  have "y \<noteq> 0"
  proof
    assume "y = 0"
    then have "round_half_even (r / u) = 0" using u by (simp add: y_def)
    then have "\<bar>r / u\<bar> \<le> 1 / 2" using round_half_even_error[of "r / u"] by simp
    then have "\<bar>r\<bar> \<le> u / 2" using u by (simp add: field_simps)
    also have "u / 2 = 2 powi (e - int p)"
    proof -
      have ep: "e - (int p - 1) = (e - int p) + 1" by simp
      have "u = 2 powi ((e - int p) + 1)" unfolding u_def by (simp only: ep)
      also have "\<dots> = 2 powi (e - int p) * 2"
        by (rule power_int_add_1) simp
      finally show ?thesis by simp
    qed
    finally have le: "\<bar>r\<bar> \<le> 2 powi (e - int p)" .
    show False
    proof (cases "emin \<le> \<lfloor>log 2 \<bar>r\<bar>\<rfloor>")
      case True
      then have "e = \<lfloor>log 2 \<bar>r\<bar>\<rfloor>" by (simp add: e_def)
      then have "2 powi e \<le> \<bar>r\<bar>" using floor_log2_bounds(1)[OF pos] by simp
      moreover have "(2::real) powi (e - int p) < 2 powi e"
        using p by (intro power_int_strict_increasing) simp_all
      ultimately show False using le by linarith
    next
      case False
      then have "e = emin" by (simp add: e_def)
      then show False using le assms by simp
    qed
  qed
  then show ?thesis
    using r0
    by (simp add: round_to_format_def Let_def inf_signed_def finite_signed_def
          flip: e_def u_def y_def)
qed

lemma round_to_format_overflow:
  assumes big: "2 powi (emax + 1) \<le> \<bar>r\<bar>" and em: "emin \<le> emax" and p: "0 < p"
  shows "round_to_format p emin emax r = inf_signed (r < 0)"
proof -
  have pos: "0 < \<bar>r\<bar>"
    using big by (smt (verit) zero_less_power_int zero_less_numeral)
  then have r0: "r \<noteq> 0" by simp
  define e where "e = max emin \<lfloor>log 2 \<bar>r\<bar>\<rfloor>"
  define u :: real where "u = 2 powi (e - (int p - 1))"
  define y where "y = of_int (round_half_even (r / u)) * u"
  have u: "0 < u" by (simp add: u_def)
  have fl: "emax + 1 \<le> \<lfloor>log 2 \<bar>r\<bar>\<rfloor>" using big by (rule floor_log2_ge)
  then have e: "e = \<lfloor>log 2 \<bar>r\<bar>\<rfloor>" "emax + 1 \<le> e" using em by (simp_all add: e_def)
  have ge: "2 powi e \<le> \<bar>r\<bar>" using floor_log2_bounds(1)[OF pos] e by simp
  have eu: "(2::real) powi e = 2 ^ (p - 1) * u"
  proof -
    have "e = int (p - 1) + (e - (int p - 1))" using p by simp
    then have "(2::real) powi e = 2 powi (int (p - 1) + (e - (int p - 1)))" by simp
    also have "\<dots> = 2 powi int (p - 1) * 2 powi (e - (int p - 1))"
      by (rule power_int_add) simp
    finally show ?thesis by (simp add: u_def)
  qed
  have "2 powi e \<le> \<bar>y\<bar>"
  proof (cases "0 < r")
    case True
    then have "of_int (2 ^ (p - 1)) \<le> r / u"
      using ge eu u by (simp add: field_simps)
    then have "2 ^ (p - 1) \<le> round_half_even (r / u)" by (rule round_half_even_ge)
    then have "(of_int (2 ^ (p - 1)) :: real) \<le> of_int (round_half_even (r / u))"
      by (simp only: of_int_le_iff)
    then have "2 ^ (p - 1) * u \<le> of_int (round_half_even (r / u)) * u"
      using u by (intro mult_right_mono) simp_all
    then show ?thesis unfolding eu y_def by linarith
  next
    case False
    then have neg: "r < 0" using r0 by simp
    then have "r / u \<le> of_int (- (2 ^ (p - 1)))"
      using ge eu u by (simp add: field_simps)
    then have "round_half_even (r / u) \<le> - (2 ^ (p - 1))" by (rule round_half_even_le)
    then have "(of_int (round_half_even (r / u)) :: real) \<le> of_int (- (2 ^ (p - 1)))"
      by (simp only: of_int_le_iff)
    then have "of_int (round_half_even (r / u)) * u \<le> - (2 ^ (p - 1)) * u"
      using u mult_right_mono[of "of_int (round_half_even (r / u))" "- (2 ^ (p - 1))" u] by simp
    then show ?thesis unfolding eu y_def by linarith
  qed
  moreover have "(2::real) powi (emax + 1) \<le> 2 powi e"
    using e(2) by (intro power_int_increasing) simp_all
  ultimately have "2 powi (emax + 1) \<le> \<bar>y\<bar>" by linarith
  then show ?thesis
    using r0 by (simp add: round_to_format_def Let_def flip: e_def u_def y_def)
qed

text \<open>The binary64 format.\<close>

lemma round_to_double_0 [simp]: "round_to_double 0 = Finite 0"
  by (simp add: round_to_double_def round_to_format_def)

lemma round_to_double_exact:
  assumes "\<bar>n\<bar> < 2 ^ 53" "- 1074 \<le> k" "\<bar>of_int n * 2 powi k\<bar> < (2::real) ^ 1024"
  shows "round_to_double (of_int n * 2 powi k) = Finite (of_int n * 2 powi k)"
proof (cases "n = 0")
  case True
  then show ?thesis by simp
next
  case False
  have "\<bar>of_int n * 2 powi k\<bar> < (2::real) powi (1023 + 1)"
    using assms(3) by (simp add: power_int_def)
  then show ?thesis
    unfolding round_to_double_def
    using False assms(1,2)
    by (intro round_to_format_exact[where n = n and k = k]) simp_all
qed

lemma round_to_double_of_int:
  assumes "\<bar>n\<bar> \<le> 2 ^ 53"
  shows "round_to_double (of_int n) = Finite (of_int n)"
proof (cases "\<bar>n\<bar> < 2 ^ 53")
  case True
  have "\<bar>real_of_int n\<bar> < 2 ^ 53"
  proof -
    have "(of_int \<bar>n\<bar> :: real) < of_int (2 ^ 53)" using True by (simp only: of_int_less_iff)
    then show ?thesis by simp
  qed
  also have "\<dots> < (2::real) ^ 1024" by (rule power_strict_increasing) simp_all
  finally show ?thesis using round_to_double_exact[of n 0] True by simp
next
  case False
  then have "n = 2 ^ 53 \<or> n = - (2 ^ 53)" using assms by linarith
  then have n: "real_of_int n = of_int (if 0 < n then 1 else - 1) * 2 powi 53"
    by (auto simp: power_int_def)
  have "\<bar>real_of_int (if 0 < n then 1 else - 1) * 2 powi 53\<bar> = 2 ^ 53"
    by (simp add: power_int_def)
  also have "\<dots> < (2::real) ^ 1024" by (rule power_strict_increasing) simp_all
  finally show ?thesis
    unfolding n by (intro round_to_double_exact) simp_all
qed

lemma round_to_double_numeral:
  "numeral n \<le> (9007199254740992::int) \<Longrightarrow> round_to_double (numeral n) = Finite (numeral n)"
  "numeral n \<le> (9007199254740992::int) \<Longrightarrow>
     round_to_double (- numeral n) = Finite (- numeral n)"
  using round_to_double_of_int[of "numeral n"] round_to_double_of_int[of "- numeral n"]
  by simp_all

lemma round_to_double_1 [simp]:
  "round_to_double 1 = Finite 1" "round_to_double (- 1) = Finite (- 1)"
  using round_to_double_of_int[of 1] round_to_double_of_int[of "- 1"] by simp_all


lemma round_to_double_not_NaN: "round_to_double r \<noteq> NaN"
  by (simp add: round_to_double_def round_to_format_def Let_def inf_signed_def
        finite_signed_def zero_signed_def)

lemma round_to_double_small:
  assumes "\<bar>r\<bar> < 1024"
  shows "\<not> is_nan (round_to_double r) \<and> \<not> is_inf (round_to_double r)
         \<and> \<bar>dval (round_to_double r) - r\<bar> \<le> 1 / 2 ^ 43"
proof (cases "r = 0")
  case True
  then show ?thesis by (simp add: is_nan_def is_inf_def)
next
  case False
  have "\<bar>r\<bar> < 2 powi 10" using assms by (simp add: power_int_def)
  then obtain y where y: "round_to_double r = finite_signed (r < 0) y"
      "\<bar>y - r\<bar> \<le> 2 powi (10 - int 53)"
    unfolding round_to_double_def
    using round_to_format_error[OF False, of 10 "- 1022" 1023 53] by auto
  have "(2::real) powi (10 - int 53) = 1 / 2 ^ 43"
    by (simp add: power_int_minus_divide)
  then show ?thesis
    using y by (auto simp: finite_signed_def zero_signed_def is_nan_def is_inf_def)
qed

lemma round_to_double_nonneg:
  assumes "0 \<le> r" "r < 1024"
  shows "\<exists>y. round_to_double r = Finite y \<and> \<bar>y - r\<bar> \<le> 1 / 2 ^ 43"
proof (cases "r = 0")
  case True
  then show ?thesis by simp
next
  case False
  have "\<bar>r\<bar> < 2 powi 10" using assms by (simp add: power_int_def)
  then obtain y where y: "round_to_double r = finite_signed (r < 0) y"
      "\<bar>y - r\<bar> \<le> 2 powi (10 - int 53)"
    unfolding round_to_double_def
    using round_to_format_error[OF False, of 10 "- 1022" 1023 53] by auto
  have "(2::real) powi (10 - int 53) = 1 / 2 ^ 43"
    by (simp add: power_int_minus_divide)
  then show ?thesis
    using y assms by (auto simp: finite_signed_def zero_signed_def)
qed

lemma round_to_double_grid:
  "\<exists>M. dval (round_to_double r) = of_int M * 2 powi (- 1074)"
  using round_to_format_grid[of 53 "- 1022" 1023 r] by (simp add: round_to_double_def)

lemma round_to_double_not_NegZero:
  "2 powi (- 1075) < \<bar>r\<bar> \<Longrightarrow> round_to_double r \<noteq> NegZero"
  using round_to_format_not_NegZero[of "- 1022" 53 r 1023] by (simp add: round_to_double_def)

lemma round_to_double_overflow:
  assumes "2 ^ 1024 \<le> \<bar>r\<bar>"
  shows "round_to_double r = inf_signed (r < 0)"
proof -
  have "(2::real) powi (1023 + 1) \<le> \<bar>r\<bar>" using assms by (simp add: power_int_def)
  then show ?thesis
    unfolding round_to_double_def by (intro round_to_format_overflow) simp_all
qed

text \<open>The sum of 2 ^ 53 and 1 is a tie, which goes to the even significand; the
  sum of two numbers near the top of the range and the square of 2 ^ 512 overflow; the
  inverse of the smallest subnormal number overflows.\<close>

lemma dadd_tie: "dadd (Finite (2 ^ 53)) (Finite 1) = Finite (2 ^ 53)"
proof -
  have fl: "\<lfloor>log 2 \<bar>2 ^ 53 + 1\<bar>\<rfloor> = (53::int)"
    by (rule floor_log2_eq) (simp_all add: power_int_def)
  have "round_to_double (2 ^ 53 + 1) = Finite (2 ^ 53)"
    unfolding round_to_double_def round_to_format_def Let_def fl
    by (simp add: round_half_even_def Let_def finite_signed_def power_int_def)
  then show ?thesis by (simp add: dadd_def is_nan_def is_inf_def)
qed

lemma dadd_overflow:
  "dadd (Finite (10 ^ 308)) (Finite (10 ^ 308)) = PInf"
proof -
  have "(2::real) ^ 1024 \<le> \<bar>10 ^ 308 + 10 ^ 308\<bar>" by simp
  then have "round_to_double (10 ^ 308 + 10 ^ 308) = inf_signed (10 ^ 308 + 10 ^ 308 < (0::real))"
    by (rule round_to_double_overflow)
  then show ?thesis by (simp add: dadd_def is_nan_def is_inf_def inf_signed_def)
qed


lemma ddiv_overflow: "ddiv (Finite 1) (Finite (2 powi (- 1074))) = PInf"
proof -
  have "(1::real) / 2 powi (- 1074) = 2 ^ 1074" by (simp add: power_int_minus_divide)
  moreover have "(2::real) ^ 1024 \<le> \<bar>2 ^ 1074\<bar>"
    by simp
  ultimately have "round_to_double (1 / 2 powi (- 1074)) = PInf"
    using round_to_double_overflow[of "2 ^ 1074"] by (simp add: inf_signed_def)
  then show ?thesis
    by (simp add: ddiv_def is_nan_def is_inf_def is_zero_def round_signed_def)
qed

text \<open>The operations on finite operands with a result of moderate size.\<close>

lemma dmul_small:
  assumes "\<not> is_nan x" "\<not> is_inf x" "\<not> is_nan y" "\<not> is_inf y" "\<bar>dval x * dval y\<bar> < 1024"
  shows "\<not> is_nan (dmul x y) \<and> \<not> is_inf (dmul x y)
         \<and> \<bar>dval (dmul x y) - dval x * dval y\<bar> \<le> 1 / 2 ^ 43"
  using assms round_to_double_small[of "dval x * dval y"]
  by (auto simp: dmul_def round_signed_def zero_signed_def is_nan_def is_inf_def)

lemma ddiv_small:
  assumes "\<not> is_nan x" "\<not> is_inf x" "\<not> is_nan y" "\<not> is_inf y" "\<not> is_zero y"
    and "\<bar>dval x / dval y\<bar> < 1024"
  shows "\<not> is_nan (ddiv x y) \<and> \<not> is_inf (ddiv x y)
         \<and> \<bar>dval (ddiv x y) - dval x / dval y\<bar> \<le> 1 / 2 ^ 43"
  using assms round_to_double_small[of "dval x / dval y"]
  by (auto simp: ddiv_def round_signed_def zero_signed_def is_nan_def is_inf_def)

lemma dval_ddiv_grid: "\<exists>M. dval (ddiv x y) = of_int M * 2 powi (- 1074)"
proof -
  have z: "\<exists>M. (0::real) = of_int M * 2 powi (- 1074)" by (rule exI[of _ 0]) simp
  show ?thesis
    using z round_to_double_grid[of "dval x / dval y"]
    by (auto simp: ddiv_def round_signed_def zero_signed_def inf_signed_def)
qed

lemma dadd_int_Finite:
  assumes fin: "\<not> is_nan x" "\<not> is_inf x"
    and grid: "dval x = of_int M * 2 powi (- 1074)"
    and small: "\<bar>dval x + of_int n\<bar> < 1024" and n: "n \<noteq> 0"
  shows "\<exists>s. dadd x (Finite (of_int n)) = Finite s \<and> \<bar>s - (dval x + of_int n)\<bar> \<le> 1 / 2 ^ 43"
proof -
  let ?r = "dval x + of_int n"
  have d: "dadd x (Finite (of_int n)) = round_to_double ?r"
    using fin by (simp add: dadd_def is_nan_def is_inf_def)
  have r: "?r = of_int (M + n * 2 ^ 1074) * 2 powi (- 1074)"
    by (simp add: grid power_int_minus_divide algebra_simps)
  note s = round_to_double_small[OF small]
  have "round_to_double ?r \<noteq> NegZero"
  proof (cases "M + n * 2 ^ 1074 = 0")
    case True
    then have "?r = 0" using r by simp
    then show ?thesis by simp
  next
    case False
    then have "1 \<le> \<bar>M + n * 2 ^ 1074\<bar>" by linarith
    then have "(1::real) \<le> \<bar>of_int (M + n * 2 ^ 1074)\<bar>"
      by (metis of_int_1_le_iff of_int_abs)
    then have "1 * 2 powi (- 1074) \<le> \<bar>of_int (M + n * 2 ^ 1074)\<bar> * (2::real) powi (- 1074)"
      by (intro mult_right_mono) simp_all
    then have "2 powi (- 1074) \<le> \<bar>?r\<bar>"
      unfolding r by (simp add: abs_mult)
    moreover have "(2::real) powi (- 1075) < 2 powi (- 1074)"
      by (intro power_int_strict_increasing) simp_all
    ultimately show ?thesis by (intro round_to_double_not_NegZero) linarith
  qed
  then show ?thesis
    using s unfolding d
    by (cases "round_to_double ?r") (auto simp: is_nan_def is_inf_def)
qed

section \<open>Shape errors\<close>

text \<open>
  Claim C1. Every pixel function checks the number of sources first, and
  \<open>SqrtPixelFunc\<close>, \<open>dB2AmpPixelFunc\<close> and \<open>dB2PowPixelFunc\<close> check next that the
  source type is not complex. A call that fails one of these checks returns
  \<open>CE_Failure\<close> and its destination buffer is the buffer it was given: no element of
  it has been written.
\<close>

theorem shape_error_fails_atomically:
  "(nSources \<noteq> 1 \<longrightarrow>
      RealPixelFunc papoSources nSources pData nXSize nYSize eSrcType eBufType nPixelSpace nLineSpace
        = (CE_Failure, pData))
   \<and> (nSources \<noteq> 1 \<longrightarrow>
      ImagPixelFunc papoSources nSources pData nXSize nYSize eSrcType eBufType nPixelSpace nLineSpace
        = (CE_Failure, pData))
   \<and> (nSources \<noteq> 1 \<longrightarrow>
      ModulePixelFunc papoSources nSources pData nXSize nYSize eSrcType eBufType nPixelSpace nLineSpace
        = (CE_Failure, pData))
   \<and> (nSources \<noteq> 1 \<longrightarrow>
      PhasePixelFunc papoSources nSources pData nXSize nYSize eSrcType eBufType nPixelSpace nLineSpace
        = (CE_Failure, pData))
   \<and> (nSources \<noteq> 1 \<longrightarrow>
      ConjPixelFunc papoSources nSources pData nXSize nYSize eSrcType eBufType nPixelSpace nLineSpace
        = (CE_Failure, pData))
   \<and> (nSources < 2 \<longrightarrow>
      SumPixelFunc papoSources nSources pData nXSize nYSize eSrcType eBufType nPixelSpace nLineSpace
        = (CE_Failure, pData))
   \<and> (nSources \<noteq> 2 \<longrightarrow>
      DiffPixelFunc papoSources nSources pData nXSize nYSize eSrcType eBufType nPixelSpace nLineSpace
        = (CE_Failure, pData))
   \<and> (nSources < 2 \<longrightarrow>
      MulPixelFunc papoSources nSources pData nXSize nYSize eSrcType eBufType nPixelSpace nLineSpace
        = (CE_Failure, pData))
   \<and> (nSources \<noteq> 2 \<longrightarrow>
      CMulPixelFunc papoSources nSources pData nXSize nYSize eSrcType eBufType nPixelSpace nLineSpace
        = (CE_Failure, pData))
   \<and> (nSources \<noteq> 1 \<longrightarrow>
      InvPixelFunc papoSources nSources pData nXSize nYSize eSrcType eBufType nPixelSpace nLineSpace
        = (CE_Failure, pData))
   \<and> (nSources \<noteq> 1 \<longrightarrow>
      IntensityPixelFunc papoSources nSources pData nXSize nYSize eSrcType eBufType nPixelSpace nLineSpace
        = (CE_Failure, pData))
   \<and> (nSources \<noteq> 1 \<longrightarrow>
      SqrtPixelFunc papoSources nSources pData nXSize nYSize eSrcType eBufType nPixelSpace nLineSpace
        = (CE_Failure, pData))
   \<and> (nSources \<noteq> 1 \<longrightarrow>
      Log10PixelFunc papoSources nSources pData nXSize nYSize eSrcType eBufType nPixelSpace nLineSpace
        = (CE_Failure, pData))
   \<and> (nSources \<noteq> 1 \<longrightarrow>
      dB2AmpPixelFunc papoSources nSources pData nXSize nYSize eSrcType eBufType nPixelSpace nLineSpace
        = (CE_Failure, pData))
   \<and> (nSources \<noteq> 1 \<longrightarrow>
      dB2PowPixelFunc papoSources nSources pData nXSize nYSize eSrcType eBufType nPixelSpace nLineSpace
        = (CE_Failure, pData))
   \<and> (nSources \<noteq> 2 \<longrightarrow>
      BetaSigmaToIncidence papoSources nSources pData nXSize nYSize eSrcType eBufType nPixelSpace nLineSpace
        = (CE_Failure, pData))
   \<and> (nSources \<noteq> 2 \<longrightarrow>
      UVToMagnitude papoSources nSources pData nXSize nYSize eSrcType eBufType nPixelSpace nLineSpace
        = (CE_Failure, pData))
   \<and> (nSources \<noteq> 2 \<longrightarrow>
      UVToDirectionTo papoSources nSources pData nXSize nYSize eSrcType eBufType nPixelSpace nLineSpace
        = (CE_Failure, pData))
   \<and> (nSources \<noteq> 2 \<longrightarrow>
      UVToDirectionFrom papoSources nSources pData nXSize nYSize eSrcType eBufType nPixelSpace nLineSpace
        = (CE_Failure, pData))
   \<and> (nSources \<noteq> 2 \<longrightarrow>
      Sigma0HHIncidenceToSigma0VV papoSources nSources pData nXSize nYSize eSrcType eBufType nPixelSpace nLineSpace
        = (CE_Failure, pData))
   \<and> (GDALDataTypeIsComplex eSrcType \<longrightarrow>
      SqrtPixelFunc papoSources nSources pData nXSize nYSize eSrcType eBufType nPixelSpace nLineSpace
        = (CE_Failure, pData))
   \<and> (GDALDataTypeIsComplex eSrcType \<longrightarrow>
      dB2AmpPixelFunc papoSources nSources pData nXSize nYSize eSrcType eBufType nPixelSpace nLineSpace
        = (CE_Failure, pData))
   \<and> (GDALDataTypeIsComplex eSrcType \<longrightarrow>
      dB2PowPixelFunc papoSources nSources pData nXSize nYSize eSrcType eBufType nPixelSpace nLineSpace
        = (CE_Failure, pData))"
  by (simp add: RealPixelFunc_def ImagPixelFunc_def ModulePixelFunc_def PhasePixelFunc_def ConjPixelFunc_def SumPixelFunc_def DiffPixelFunc_def MulPixelFunc_def CMulPixelFunc_def InvPixelFunc_def IntensityPixelFunc_def SqrtPixelFunc_def Log10PixelFunc_def dB2AmpPixelFunc_def dB2PowPixelFunc_def BetaSigmaToIncidence_def UVToMagnitude_def UVToDirectionTo_def UVToDirectionFrom_def Sigma0HHIncidenceToSigma0VV_def PowPixelFuncHelper_def)

text \<open>
  The scenarios of the claim: \<open>sum\<close> with one source, \<open>diff\<close> with three, \<open>cmul\<close> with
  one, \<open>mod\<close> with three, and \<open>sqrt\<close>, \<open>dB2amp\<close> and \<open>dB2pow\<close> on a complex
  source, each on a destination buffer filled with a sentinel.
\<close>

theorem shape_error_fails_atomically_witness:
  "(1::int) < 2 \<and> (3::int) \<noteq> 2 \<and> (1::int) \<noteq> 2 \<and> (3::int) \<noteq> 1
   \<and> GDALDataTypeIsComplex GDT_CFloat32
   \<and> ModulePixelFunc [array_of 4 [Finite 1], array_of 4 [Finite 2], array_of 4 [Finite 3]] 3
        sentinel 1 1 GDT_Float32 GDT_Float32 4 4 = (CE_Failure, sentinel)
   \<and> SumPixelFunc [array_of 4 [Finite 1]] 1 sentinel 1 1 GDT_Float32 GDT_Float32 4 4
        = (CE_Failure, sentinel)
   \<and> DiffPixelFunc [array_of 4 [Finite 1], array_of 4 [Finite 2], array_of 4 [Finite 3]] 3
        sentinel 1 1 GDT_Float32 GDT_Float32 4 4 = (CE_Failure, sentinel)
   \<and> CMulPixelFunc [array_of 4 [Finite 1]] 1 sentinel 1 1 GDT_Float32 GDT_Float32 4 4
        = (CE_Failure, sentinel)
   \<and> SqrtPixelFunc [array_of 4 [Finite 1, Finite 2]] 1 sentinel 1 1 GDT_CFloat32 GDT_Float32 4 4
        = (CE_Failure, sentinel)
   \<and> dB2AmpPixelFunc [array_of 4 [Finite 1, Finite 2]] 1 sentinel 1 1 GDT_CFloat32 GDT_Float32 4 4
        = (CE_Failure, sentinel)
   \<and> dB2PowPixelFunc [array_of 4 [Finite 1, Finite 2]] 1 sentinel 1 1 GDT_CFloat32 GDT_Float32 4 4
        = (CE_Failure, sentinel)"
  using shape_error_fails_atomically
          [where nSources = 1 and papoSources = "[array_of 4 [Finite 1]]" and pData = sentinel
             and nXSize = 1 and nYSize = 1 and eSrcType = GDT_Float32 and eBufType = GDT_Float32
             and nPixelSpace = 4 and nLineSpace = 4]
        shape_error_fails_atomically
          [where nSources = 3
             and papoSources = "[array_of 4 [Finite 1], array_of 4 [Finite 2], array_of 4 [Finite 3]]"
             and pData = sentinel
             and nXSize = 1 and nYSize = 1 and eSrcType = GDT_Float32 and eBufType = GDT_Float32
             and nPixelSpace = 4 and nLineSpace = 4]
        shape_error_fails_atomically
          [where nSources = 1 and papoSources = "[array_of 4 [Finite 1, Finite 2]]"
             and pData = sentinel
             and nXSize = 1 and nYSize = 1 and eSrcType = GDT_CFloat32 and eBufType = GDT_Float32
             and nPixelSpace = 4 and nLineSpace = 4]
  by simp

section \<open>Phase\<close>

lemma PhasePixelFunc_real:
  assumes "dst_layout_ok eBufType nXSize nPixelSpace nLineSpace"
    and "0 \<le> iLine" "iLine < nYSize" "0 \<le> iCol" "iCol < nXSize"
    and "\<not> GDALDataTypeIsComplex eSrcType"
  shows "snd (PhasePixelFunc [src] 1 pData nXSize nYSize eSrcType eBufType nPixelSpace nLineSpace)
           (nLineSpace * iLine + iCol * nPixelSpace) =
         Stored eBufType
           (if dlt (SRCVAL (src, 0) eSrcType (iLine * nXSize + iCol)) (Finite 0)
            then Finite pi else Finite 0)
           (Finite 0)"
  using assms
  by (simp add: PhasePixelFunc_def Let_def GDALCopyWords_one dst_layout_ok_def tile_write_ii
        c_atan2_0_m1) (simp add: double_of_int_def)

lemma PhasePixelFunc_complex:
  assumes "dst_layout_ok eBufType nXSize nPixelSpace nLineSpace"
    and "0 \<le> iLine" "iLine < nYSize" "0 \<le> iCol" "iCol < nXSize"
    and "GDALDataTypeIsComplex eSrcType"
  shows "snd (PhasePixelFunc [src] 1 pData nXSize nYSize eSrcType eBufType nPixelSpace nLineSpace)
           (nLineSpace * iLine + iCol * nPixelSpace) =
         Stored eBufType
           (c_atan2 (SRCVAL (src, GDALGetDataTypeSize eSrcType div 8 div 2) eSrcType
                       (iLine * nXSize + iCol))
                    (SRCVAL (src, 0) eSrcType (iLine * nXSize + iCol)))
           (Finite 0)"
  using assms
  by (simp add: PhasePixelFunc_def Let_def GDALCopyWords_one dst_layout_ok_def tile_write_ii)

text \<open>
  Claim C2. At every sample of the tile, \<open>PhasePixelFunc\<close> on a real source stores 0
  when the sample is \<open>>= 0\<close> and \<open>pi\<close> when it is \<open>< 0\<close>; on a complex source it
  stores \<open>atan2\<close> of the imaginary and the real part. The call succeeds. The value
  \<open>pi\<close> is what the code computes as \<^verbatim>\<open>atan2(0, -1)\<close>.
\<close>

theorem PhasePixelFunc_writes:
  assumes "dst_layout_ok eBufType nXSize nPixelSpace nLineSpace"
    and "0 \<le> iLine" "iLine < nYSize" "0 \<le> iCol" "iCol < nXSize"
  shows "fst (PhasePixelFunc [src] 1 pData nXSize nYSize eSrcType eBufType nPixelSpace nLineSpace)
           = CE_None
    \<and> (\<not> GDALDataTypeIsComplex eSrcType
         \<and> dge (SRCVAL (src, 0) eSrcType (iLine * nXSize + iCol)) (Finite 0) \<longrightarrow>
       snd (PhasePixelFunc [src] 1 pData nXSize nYSize eSrcType eBufType nPixelSpace nLineSpace)
         (nLineSpace * iLine + iCol * nPixelSpace) = Stored eBufType (Finite 0) (Finite 0))
    \<and> (\<not> GDALDataTypeIsComplex eSrcType
         \<and> dlt (SRCVAL (src, 0) eSrcType (iLine * nXSize + iCol)) (Finite 0) \<longrightarrow>
       snd (PhasePixelFunc [src] 1 pData nXSize nYSize eSrcType eBufType nPixelSpace nLineSpace)
         (nLineSpace * iLine + iCol * nPixelSpace) = Stored eBufType (Finite pi) (Finite 0))
    \<and> (GDALDataTypeIsComplex eSrcType \<longrightarrow>
       snd (PhasePixelFunc [src] 1 pData nXSize nYSize eSrcType eBufType nPixelSpace nLineSpace)
         (nLineSpace * iLine + iCol * nPixelSpace) =
       Stored eBufType
         (c_atan2 (SRCVAL (src, GDALGetDataTypeSize eSrcType div 8 div 2) eSrcType
                     (iLine * nXSize + iCol))
                  (SRCVAL (src, 0) eSrcType (iLine * nXSize + iCol)))
         (Finite 0))"
proof -
  have "fst (PhasePixelFunc [src] 1 pData nXSize nYSize eSrcType eBufType nPixelSpace nLineSpace)
          = CE_None"
    by (simp add: PhasePixelFunc_def Let_def)
  then show ?thesis
    using PhasePixelFunc_real[OF assms] PhasePixelFunc_complex[OF assms]
    by (simp add: dge_def)
qed

text \<open>
  A 2 by 2 tile of 32-bit floats whose first row is 0 and -2, and a complex sample
  with real part -1 and imaginary part 0.
\<close>

theorem PhasePixelFunc_writes_witness:
  "dst_layout_ok GDT_Float64 2 8 16
   \<and> \<not> GDALDataTypeIsComplex GDT_Float32
   \<and> dge (SRCVAL (array_of 4 [Finite 0, Finite (- 2), Finite 1, Finite (- 1 / 2)], 0)
             GDT_Float32 (0 * 2 + 0)) (Finite 0)
   \<and> dlt (SRCVAL (array_of 4 [Finite 0, Finite (- 2), Finite 1, Finite (- 1 / 2)], 0)
             GDT_Float32 (0 * 2 + 1)) (Finite 0)
   \<and> fst (PhasePixelFunc [array_of 4 [Finite 0, Finite (- 2), Finite 1, Finite (- 1 / 2)]] 1
             sentinel 2 2 GDT_Float32 GDT_Float64 8 16) = CE_None
   \<and> snd (PhasePixelFunc [array_of 4 [Finite 0, Finite (- 2), Finite 1, Finite (- 1 / 2)]] 1
             sentinel 2 2 GDT_Float32 GDT_Float64 8 16) 0
        = Stored GDT_Float64 (Finite 0) (Finite 0)
   \<and> snd (PhasePixelFunc [array_of 4 [Finite 0, Finite (- 2), Finite 1, Finite (- 1 / 2)]] 1
             sentinel 2 2 GDT_Float32 GDT_Float64 8 16) 8
        = Stored GDT_Float64 (Finite pi) (Finite 0)
   \<and> GDALDataTypeIsComplex GDT_CFloat32
   \<and> snd (PhasePixelFunc [array_of 4 [Finite (- 1), Finite 0]] 1
             sentinel 1 1 GDT_CFloat32 GDT_Float64 8 8) 0
        = Stored GDT_Float64 (Finite pi) (Finite 0)"
  using PhasePixelFunc_writes
          [where src = "array_of 4 [Finite 0, Finite (- 2), Finite 1, Finite (- 1 / 2)]"
             and pData = sentinel and nXSize = 2 and nYSize = 2 and eSrcType = GDT_Float32
             and eBufType = GDT_Float64 and nPixelSpace = 8 and nLineSpace = 16
             and iLine = 0 and iCol = 0]
        PhasePixelFunc_writes
          [where src = "array_of 4 [Finite 0, Finite (- 2), Finite 1, Finite (- 1 / 2)]"
             and pData = sentinel and nXSize = 2 and nYSize = 2 and eSrcType = GDT_Float32
             and eBufType = GDT_Float64 and nPixelSpace = 8 and nLineSpace = 16
             and iLine = 0 and iCol = 1]
        PhasePixelFunc_writes
          [where src = "array_of 4 [Finite (- 1), Finite 0]"
             and pData = sentinel and nXSize = 1 and nYSize = 1 and eSrcType = GDT_CFloat32
             and eBufType = GDT_Float64 and nPixelSpace = 8 and nLineSpace = 8
             and iLine = 0 and iCol = 0]
  by (simp add: dst_layout_ok_def sample_defs c_atan2_def double_defs)

section \<open>Modulus\<close>

lemma ModulePixelFunc_real:
  assumes "dst_layout_ok eBufType nXSize nPixelSpace nLineSpace"
    and "0 \<le> iLine" "iLine < nYSize" "0 \<le> iCol" "iCol < nXSize"
    and "\<not> GDALDataTypeIsComplex eSrcType"
  shows "snd (ModulePixelFunc [src] 1 pData nXSize nYSize eSrcType eBufType nPixelSpace nLineSpace)
           (nLineSpace * iLine + iCol * nPixelSpace) =
         Stored eBufType
           (double_of_int (c_abs (c_double_to_int
              (SRCVAL (src, 0) eSrcType (iLine * nXSize + iCol)))))
           (Finite 0)"
  using assms
  by (simp add: ModulePixelFunc_def Let_def GDALCopyWords_one dst_layout_ok_def tile_write_ii)


lemma c_abs_half: "c_abs (c_double_to_int (Finite (1 / 2))) = 0"
  by (simp add: c_abs_def c_double_to_int_def trunc_toward_zero_def INT_MIN_def INT_MAX_def)

text \<open>
  Claim C3. On a real source the code computes \<^verbatim>\<open>abs(SRCVAL(...))\<close> with the \<^verbatim>\<open>abs\<close>
  of \<^verbatim>\<open>stdlib.h\<close>, which takes an \<^verbatim>\<open>int\<close>: the sample is truncated to an integer
  before its absolute value is taken (\<open>ModulePixelFunc_real\<close>). For the 64-bit float
  sample 0.5 the function stores 0, not the absolute value 0.5. The complex branch
  stores \<open>sqrt(re * re + im * im)\<close> (\<open>ModulePixelFunc_complex\<close>).
\<close>

theorem ModulePixelFunc_real_half:
  "snd (ModulePixelFunc [array_of 8 [Finite (1 / 2)]] 1 sentinel 1 1 GDT_Float64 GDT_Float64 8 8) 0
     = Stored GDT_Float64 (Finite 0) (Finite 0)
   \<and> Stored GDT_Float64 (Finite 0) (Finite 0) \<noteq> Stored GDT_Float64 (Finite \<bar>1 / 2\<bar>) (Finite 0)"
  using ModulePixelFunc_real
          [where src = "array_of 8 [Finite (1 / 2)]" and pData = sentinel and nXSize = 1
             and nYSize = 1 and eSrcType = GDT_Float64 and eBufType = GDT_Float64
             and nPixelSpace = 8 and nLineSpace = 8 and iLine = 0 and iCol = 0]
  by (simp add: dst_layout_ok_def sample_defs c_abs_half double_of_int_def)

section \<open>Decimal logarithm\<close>

lemma Log10PixelFunc_real:
  assumes "dst_layout_ok eBufType nXSize nPixelSpace nLineSpace"
    and "0 \<le> iLine" "iLine < nYSize" "0 \<le> iCol" "iCol < nXSize"
    and "\<not> GDALDataTypeIsComplex eSrcType"
  shows "snd (Log10PixelFunc [src] 1 pData nXSize nYSize eSrcType eBufType nPixelSpace nLineSpace)
           (nLineSpace * iLine + iCol * nPixelSpace) =
         Stored eBufType
           (c_log10 (double_of_int (c_abs (c_double_to_int
              (SRCVAL (src, 0) eSrcType (iLine * nXSize + iCol))))))
           (Finite 0)"
  using assms
  by (simp add: Log10PixelFunc_def Let_def GDALCopyWords_one dst_layout_ok_def tile_write_ii)


text \<open>
  Claim C4. The real branch has the same \<^verbatim>\<open>abs\<close> on an \<^verbatim>\<open>int\<close>: the code computes
  \<^verbatim>\<open>log10(abs(dfPixVal))\<close> of the truncated sample (\<open>Log10PixelFunc_real\<close>). For the
  64-bit float sample 0.5 it stores \<open>log10 0\<close>, minus infinity, not \<open>log10 0.5\<close>. The
  complex branch stores \<open>log10(re * re + im * im)\<close> (\<open>Log10PixelFunc_complex\<close>).
\<close>

theorem Log10PixelFunc_real_half:
  "snd (Log10PixelFunc [array_of 8 [Finite (1 / 2)]] 1 sentinel 1 1 GDT_Float64 GDT_Float64 8 8) 0
     = Stored GDT_Float64 NInf (Finite 0)
   \<and> Stored GDT_Float64 NInf (Finite 0) \<noteq> Stored GDT_Float64 (c_log10 (Finite \<bar>1 / 2\<bar>)) (Finite 0)"
  using Log10PixelFunc_real
          [where src = "array_of 8 [Finite (1 / 2)]" and pData = sentinel and nXSize = 1
             and nYSize = 1 and eSrcType = GDT_Float64 and eBufType = GDT_Float64
             and nPixelSpace = 8 and nLineSpace = 8 and iLine = 0 and iCol = 0]
  by (simp add: dst_layout_ok_def sample_defs c_abs_half double_of_int_def c_log10_def)

section \<open>Wind direction\<close>

text \<open>Bounds on \<open>pi\<close>, from the Maclaurin polynomial of the sine at \<open>pi / 6\<close>.\<close>

lemma sum_upto_7:
  fixes f :: "nat \<Rightarrow> real"
  shows "(\<Sum>m<7. f m) = f 0 + f 1 + f 2 + f 3 + f 4 + f 5 + f 6"
  by (simp add: eval_nat_numeral)

lemma sin_coeffs:
  "sin_coeff 0 = 0" "sin_coeff 1 = 1" "sin_coeff 2 = 0" "sin_coeff 3 = - 1 / 6"
  "sin_coeff 4 = 0" "sin_coeff 5 = 1 / 120" "sin_coeff 6 = 0"
  by (simp_all add: sin_coeff_def fact_numeral)

lemma sin_poly7:
  fixes x :: real
  shows "\<bar>sin x - (x - x^3 / 6 + x^5 / 120)\<bar> \<le> \<bar>x\<bar>^7 / 5040"
proof -
  have "(\<Sum>m<7. sin_coeff m * x ^ m) =
          sin_coeff 0 * x ^ 0 + sin_coeff 1 * x ^ 1 + sin_coeff 2 * x ^ 2 + sin_coeff 3 * x ^ 3
          + sin_coeff 4 * x ^ 4 + sin_coeff 5 * x ^ 5 + sin_coeff 6 * x ^ 6"
    by (simp only: sum_upto_7)
  also have "\<dots> = x - x^3 / 6 + x^5 / 120"
    by (simp only: sin_coeffs mult_zero_left add_0_left add_0_right mult_1 power_one_right)
  finally have s: "(\<Sum>m<7. sin_coeff m * x ^ m) = x - x^3 / 6 + x^5 / 120" .
  have f7: "(fact 7 :: real) = 5040"
    by (simp add: fact_numeral)
  have "\<bar>sin x - (x - x^3 / 6 + x^5 / 120)\<bar> \<le> inverse 5040 * \<bar>x\<bar> ^ 7"
    using Maclaurin_sin_bound[of x 7] unfolding s f7 .
  then show ?thesis by simp
qed

lemma pi_lower: "31413 / 10000 < pi"
proof -
  let ?a = "52355 / 100000 :: real"
  have "sin ?a \<le> (?a - ?a^3 / 6 + ?a^5 / 120) + \<bar>?a\<bar>^7 / 5040"
    using sin_poly7[of ?a] by linarith
  also have "\<dots> < 1 / 2" by (simp add: power_numeral_reduce)
  finally have lt: "sin ?a < sin (pi / 6)" by (simp add: sin_30)
  have "?a < pi / 6"
  proof (rule ccontr)
    assume "\<not> ?a < pi / 6"
    then have "pi / 6 \<le> ?a" by simp
    moreover have "?a \<le> pi / 2" using pi_ge_two by simp
    moreover have "- (pi / 2) \<le> pi / 6" using pi_gt_zero by simp
    ultimately have "sin (pi / 6) \<le> sin ?a" by (rule sin_monotone_2pi_le[rotated])
    then show False using lt by simp
  qed
  then show ?thesis by simp
qed

lemma pi_upper: "pi < 31419 / 10000"
proof -
  let ?b = "52365 / 100000 :: real"
  have "(?b - ?b^3 / 6 + ?b^5 / 120) - \<bar>?b\<bar>^7 / 5040 \<le> sin ?b"
    using sin_poly7[of ?b] by linarith
  moreover have "1 / 2 < (?b - ?b^3 / 6 + ?b^5 / 120) - \<bar>?b\<bar>^7 / 5040"
    by (simp add: power_numeral_reduce)
  ultimately have lt: "sin (pi / 6) < sin ?b" by (simp add: sin_30)
  have "pi / 6 < ?b"
  proof (rule ccontr)
    assume "\<not> pi / 6 < ?b"
    then have "?b \<le> pi / 6" by simp
    moreover have "pi / 6 \<le> pi / 2" using pi_gt_zero by simp
    moreover have "- (pi / 2) \<le> ?b" using pi_gt_zero by linarith
    ultimately have "sin ?b \<le> sin (pi / 6)" by (rule sin_monotone_2pi_le[rotated])
    then show False using lt by simp
  qed
  then show ?thesis by simp
qed

text \<open>The range of \<^verbatim>\<open>atan2\<close>, and the conversion to degrees followed by the offset.\<close>

lemma pi_fractions:
  "- (pi / 2) \<le> pi" "- (pi / 4) \<le> pi" "- (3 * pi / 4) \<le> pi"
  "pi / 2 \<le> pi" "pi / 4 \<le> pi" "3 * pi / 4 \<le> pi"
  "- pi \<le> pi / 2" "- pi \<le> pi / 4" "- pi \<le> 3 * pi / 4" "- pi \<le> pi"
  using pi_gt_zero by linarith+

lemma c_atan2_finite_range:
  assumes "b \<noteq> 0" "c \<noteq> 0"
  shows "\<exists>a. c_atan2 (Finite b) (Finite c) = Finite a \<and> - pi \<le> a \<and> a \<le> pi"
proof -
  have a: "- (pi / 2) < arctan (b / c)" "arctan (b / c) < pi / 2"
    by (rule arctan_lbound, rule arctan_ubound)
  have neg: "arctan (b / c) < 0" if "0 < b" "c < 0"
    using that by (simp add: arctan_less_zero_iff divide_pos_neg)
  have pos: "0 < arctan (b / c)" if "b < 0" "c < 0"
    using that by (simp add: zero_less_arctan_iff divide_neg_neg)
  consider "0 < c" | "c < 0" "0 < b" | "c < 0" "b < 0"
    using assms by linarith
  then show ?thesis
  proof cases
    case 1
    then show ?thesis using assms a pi_gt_zero
      by (simp add: c_atan2_def is_nan_def is_inf_def is_zero_def)
  next
    case 2
    then show ?thesis using assms a neg pi_gt_zero
      by (simp add: c_atan2_def is_nan_def is_inf_def is_zero_def)
  next
    case 3
    then show ?thesis using assms a pos pi_gt_zero
      by (simp add: c_atan2_def is_nan_def is_inf_def is_zero_def)
  qed
qed

lemma c_atan2_range:
  assumes "\<not> is_nan y" "\<not> is_nan x"
  shows "\<not> is_nan (c_atan2 y x) \<and> \<not> is_inf (c_atan2 y x)
         \<and> - pi \<le> dval (c_atan2 y x) \<and> dval (c_atan2 y x) \<le> pi"
proof (cases "is_zero y \<or> is_inf y \<or> is_zero x \<or> is_inf x")
  case True
  then show ?thesis
    using assms
    by (cases y; cases x)
       (auto simp: c_atan2_def angle_signed_def zero_signed_def is_nan_def is_inf_def
          is_zero_def pi_fractions)
next
  case False
  then obtain b c where yx: "y = Finite b" "x = Finite c" "b \<noteq> 0" "c \<noteq> 0"
    using assms by (cases y; cases x) (auto simp: is_nan_def is_inf_def is_zero_def)
  then show ?thesis
    using c_atan2_finite_range[of b c] by (auto simp: is_nan_def is_inf_def)
qed

text \<open>The constant \<^verbatim>\<open>PI\<close> as a number of the binary64 format.\<close>

lemma PI_value: "\<exists>P. PI = Finite P \<and> 31415926 / 10000000 < P \<and> P < 31415927 / 10000000"
proof -
  obtain y where y: "round_to_double 3.14159265 = Finite y" "\<bar>y - 3.14159265\<bar> \<le> 1 / 2 ^ 43"
    using round_to_double_nonneg[of "3.14159265"] by auto
  have "(1::real) / 2 ^ 43 < 1 / 1000000000" by simp
  then have "\<bar>y - 314159265 / 100000000\<bar> < 1 / 1000000000" using y(2) by simp
  then have "31415926 / 10000000 < y \<and> y < 31415927 / 10000000" by linarith
  then show ?thesis using y(1) by (simp add: PI_def)
qed

lemma quotient_abs_bound:
  fixes x :: real
  assumes "\<bar>x\<bar> \<le> B" "0 < Pl" "Pl \<le> P"
  shows "\<bar>x / P\<bar> \<le> B / Pl"
proof -
  have "\<bar>x / P\<bar> = \<bar>x\<bar> / P" using assms by simp
  also have "\<dots> \<le> B / Pl" using assms by (intro frac_le) simp_all
  finally show ?thesis .
qed

lemma quotient_neg_bounds:
  fixes x :: real
  assumes "0 < Pl" "Pl \<le> P" "P \<le> Pu" "lo \<le> x" "x \<le> hi" "hi \<le> 0"
  shows "lo / Pl \<le> x / P" "x / P \<le> hi / Pu"
proof -
  have P: "0 < P" "0 < Pu" using assms by linarith+
  have "lo / Pl \<le> lo / P"
    using assms P by (intro divide_left_mono_neg) simp_all
  also have "\<dots> \<le> x / P" using assms P by (intro divide_right_mono) simp_all
  finally show "lo / Pl \<le> x / P" .
  have "x / P \<le> hi / P" using assms P by (intro divide_right_mono) simp_all
  also have "\<dots> \<le> hi / Pu"
    using assms P by (intro divide_left_mono_neg) simp_all
  finally show "x / P \<le> hi / Pu" .
qed

text \<open>The conversion of an angle to degrees followed by the offset: three rounded
  operations.\<close>

lemma degrees_plus_180:
  assumes "\<not> is_nan a" "\<not> is_inf a" "\<bar>dval a\<bar> \<le> 4"
  shows "\<exists>x e. dadd (ddiv (dmul a (Finite 180)) PI) (Finite 180) = Finite x
           \<and> \<bar>x - ((dval a * 180 + e) / dval PI + 180)\<bar> \<le> 1 / 2 ^ 42 \<and> \<bar>e\<bar> \<le> 1 / 2 ^ 43"
proof -
  obtain P where P: "PI = Finite P" "31415926 / 10000000 < P" "P < 31415927 / 10000000"
    using PI_value by blast
  let ?t1 = "dmul a (Finite 180)"
  let ?t2 = "ddiv ?t1 PI"
  have "\<bar>dval a * 180\<bar> < 1024" using assms(3) by (simp add: abs_mult)
  then have t1: "\<not> is_nan ?t1" "\<not> is_inf ?t1" "\<bar>dval ?t1 - dval a * 180\<bar> \<le> 1 / 2 ^ 43"
    using dmul_small[of a "Finite 180"] assms(1,2) by (simp_all add: is_nan_def is_inf_def)
  have "\<bar>dval ?t1\<bar> \<le> 721"
  proof -
    have "\<bar>dval a * 180\<bar> \<le> 720" using assms(3) by (simp add: abs_mult)
    moreover have "(1::real) / 2 ^ 43 \<le> 1" by simp
    ultimately show ?thesis using t1(3) by linarith
  qed
  then have q1: "\<bar>dval ?t1 / P\<bar> \<le> 721 / 3"
    using P by (intro quotient_abs_bound) simp_all
  then have q: "\<bar>dval ?t1 / P\<bar> \<le> 721 / 3" "\<bar>dval ?t1 / P\<bar> < 1024"
    by linarith+
  have "\<not> is_nan (ddiv ?t1 (Finite P)) \<and> \<not> is_inf (ddiv ?t1 (Finite P))
         \<and> \<bar>dval (ddiv ?t1 (Finite P)) - dval ?t1 / dval (Finite P)\<bar> \<le> 1 / 2 ^ 43"
  proof (rule ddiv_small)
    show "\<not> is_nan ?t1" "\<not> is_inf ?t1" by (rule t1)+
    show "\<not> is_nan (Finite P)" "\<not> is_inf (Finite P)" by (simp_all add: is_nan_def is_inf_def)
    show "\<not> is_zero (Finite P)" using P(2) by (simp add: is_zero_def)
    show "\<bar>dval ?t1 / dval (Finite P)\<bar> < 1024" using q(2) by simp
  qed
  then have t2: "\<not> is_nan ?t2" "\<not> is_inf ?t2" "\<bar>dval ?t2 - dval ?t1 / P\<bar> \<le> 1 / 2 ^ 43"
    by (simp_all add: P(1))
  obtain M where M: "dval ?t2 = of_int M * 2 powi (- 1074)"
    using dval_ddiv_grid by blast
  have "\<bar>dval ?t2\<bar> \<le> 721 / 3 + 1"
  proof -
    have "(1::real) / 2 ^ 43 \<le> 1" by simp
    then show ?thesis using t2(3) q(1) by linarith
  qed
  then have "\<bar>dval ?t2 + of_int 180\<bar> < 1024" by simp
  then obtain s where s: "dadd ?t2 (Finite 180) = Finite s"
      "\<bar>s - (dval ?t2 + 180)\<bar> \<le> 1 / 2 ^ 43"
    using dadd_int_Finite[OF t2(1,2) M, of 180] by auto
  define e where "e = dval ?t1 - dval a * 180"
  have e: "dval ?t1 = dval a * 180 + e" "\<bar>e\<bar> \<le> 1 / 2 ^ 43"
    using t1(3) by (simp_all add: e_def)
  have "\<bar>s - (dval ?t1 / P + 180)\<bar> \<le> 1 / 2 ^ 43 + 1 / 2 ^ 43"
    using s(2) t2(3) by linarith
  also have "(1::real) / 2 ^ 43 + 1 / 2 ^ 43 = 1 / 2 ^ 42" by simp
  finally have "\<bar>s - ((dval a * 180 + e) / dval PI + 180)\<bar> \<le> 1 / 2 ^ 42"
    by (simp only: e(1) P(1) dval.simps)
  then show ?thesis using s(1) e(2) by auto
qed

lemma UVToDirectionTo_value:
  assumes "dst_layout_ok eBufType nXSize nPixelSpace nLineSpace"
    and "0 \<le> iLine" "iLine < nYSize" "0 \<le> iCol" "iCol < nXSize"
  shows "snd (UVToDirectionTo [pu, pv] 2 pData nXSize nYSize eSrcType eBufType nPixelSpace nLineSpace)
           (nLineSpace * iLine + iCol * nPixelSpace) =
         Stored eBufType
           (dadd (ddiv (dmul (c_atan2 (dneg (SRCVAL (pu, 0) eSrcType (iLine * nXSize + iCol)))
                                      (dneg (SRCVAL (pv, 0) eSrcType (iLine * nXSize + iCol))))
                             (Finite 180))
                       PI)
                 (Finite 180))
           (Finite 0)"
  using assms
  by (simp add: UVToDirectionTo_def Let_def GDALCopyWords_one dst_layout_ok_def tile_write
        double_of_int_def)

lemma direction_to_south:
  "dadd (ddiv (dmul (c_atan2 (dneg (Finite 0)) (dneg (Finite (- 1)))) (Finite 180)) PI)
     (Finite 180) = Finite 180"
proof -
  obtain P where P: "PI = Finite P" "31415926 / 10000000 < P" using PI_value by blast
  show ?thesis
    using P(2)
    by (simp add: P(1) c_atan2_def double_defs round_to_double_numeral)
qed

lemma is_nan_dneg: "is_nan (dneg x) = is_nan x"
  by (cases x) (simp_all add: dneg_def is_nan_def)

lemma direction_range:
  assumes "\<not> is_nan u" "\<not> is_nan v"
  shows "\<exists>x. dadd (ddiv (dmul (c_atan2 (dneg u) (dneg v)) (Finite 180)) PI) (Finite 180) = Finite x
             \<and> - 0.02 < x \<and> x < 360.02"
proof -
  let ?a = "c_atan2 (dneg u) (dneg v)"
  obtain P where P: "PI = Finite P" "31415926 / 10000000 < P" "P < 31415927 / 10000000"
    using PI_value by blast
  have r: "\<not> is_nan ?a" "\<not> is_inf ?a" "- pi \<le> dval ?a" "dval ?a \<le> pi"
    using c_atan2_range[of "dneg u" "dneg v"] assms by (simp_all add: is_nan_dneg)
  then have "\<bar>dval ?a\<bar> \<le> 4" using pi_upper by (simp add: abs_le_iff)
  then obtain x e where x: "dadd (ddiv (dmul ?a (Finite 180)) PI) (Finite 180) = Finite x"
      "\<bar>x - ((dval ?a * 180 + e) / dval PI + 180)\<bar> \<le> 1 / 2 ^ 42" "\<bar>e\<bar> \<le> 1 / 2 ^ 43"
    using degrees_plus_180[OF r(1,2)] by blast
  have "(1::real) / 2 ^ 42 < 1 / 10000" "(1::real) / 2 ^ 43 < 1 / 10000" by simp_all
  then have small: "\<bar>x - ((dval ?a * 180 + e) / P + 180)\<bar> < 1 / 10000" "\<bar>e\<bar> < 1 / 10000"
    using x(2,3) by (simp_all add: P(1))
  have "\<bar>dval ?a * 180 + e\<bar> \<le> 31419 / 10000 * 180 + 1 / 10000"
    using r(3,4) pi_upper small(2) by linarith
  then have "\<bar>(dval ?a * 180 + e) / P\<bar> \<le> (31419 / 10000 * 180 + 1 / 10000) / (31415926 / 10000000)"
    using P by (intro quotient_abs_bound) simp_all
  also have "\<dots> < 18001 / 100 + 8 / 1000" by simp
  finally have "\<bar>(dval ?a * 180 + e) / P\<bar> < 18001 / 100 + 8 / 1000" .
  then have "- (2 / 100) < x \<and> x < 36002 / 100"
    using small(1) by linarith
  then have "- 0.02 < x \<and> x < 360.02" by simp
  then show ?thesis using x(1) by blast
qed

lemma direction_to_east:
  "\<exists>x. dadd (ddiv (dmul (c_atan2 (dneg (Finite 1)) (dneg (Finite 0))) (Finite 180)) PI)
          (Finite 180) = Finite x \<and> 89.99 < x \<and> x < 90.01"
proof -
  obtain P where P: "PI = Finite P" "31415926 / 10000000 < P" "P < 31415927 / 10000000"
    using PI_value by blast
  have a: "c_atan2 (dneg (Finite 1)) (dneg (Finite 0)) = Finite (- (pi / 2))"
    by (simp add: c_atan2_def double_defs)
  have "\<bar>dval (Finite (- (pi / 2)))\<bar> \<le> 4" using pi_upper pi_gt_zero by simp
  then obtain x e where x:
      "dadd (ddiv (dmul (Finite (- (pi / 2))) (Finite 180)) PI) (Finite 180) = Finite x"
      "\<bar>x - ((dval (Finite (- (pi / 2))) * 180 + e) / dval PI + 180)\<bar> \<le> 1 / 2 ^ 42"
      "\<bar>e\<bar> \<le> 1 / 2 ^ 43"
    using degrees_plus_180[of "Finite (- (pi / 2))"] by (auto simp: is_nan_def is_inf_def)
  define n where "n = - (pi / 2) * 180 + e"
  have "(1::real) / 2 ^ 42 < 1 / 10000" "(1::real) / 2 ^ 43 < 1 / 10000" by simp_all
  then have small: "\<bar>x - (n / P + 180)\<bar> < 1 / 10000" "\<bar>e\<bar> < 1 / 10000"
    using x(2,3) by (simp_all add: P(1) n_def)
  have n: "- (31419 / 10000 * 90) - 1 / 10000 \<le> n" "n \<le> - (31413 / 10000 * 90) + 1 / 10000"
    unfolding n_def using pi_lower pi_upper small(2) by linarith+
  have q: "(- (31419 / 10000 * 90) - 1 / 10000) / (31415926 / 10000000) \<le> n / P"
          "n / P \<le> (- (31413 / 10000 * 90) + 1 / 10000) / (31415927 / 10000000)"
  proof -
    have b: "(0::real) < 31415926 / 10000000" "31415926 / 10000000 \<le> P"
        "P \<le> 31415927 / 10000000" "- (31413 / 10000 * 90) + 1 / 10000 \<le> (0::real)"
      using P by simp_all
    show "(- (31419 / 10000 * 90) - 1 / 10000) / (31415926 / 10000000) \<le> n / P"
      by (rule quotient_neg_bounds(1)[OF b(1,2,3) n b(4)])
    show "n / P \<le> (- (31413 / 10000 * 90) + 1 / 10000) / (31415927 / 10000000)"
      by (rule quotient_neg_bounds(2)[OF b(1,2,3) n b(4)])
  qed
  have "- (90009 / 1000) < (- (31419 / 10000 * 90) - 1 / 10000) / (31415926 / 10000000 :: real)"
    by simp
  moreover have "(- (31413 / 10000 * 90) + 1 / 10000) / (31415927 / 10000000 :: real) < - (89991 / 1000)"
    by simp
  ultimately have "- (90009 / 1000) < n / P" "n / P < - (89991 / 1000)"
    using q by linarith+
  then have "8999 / 100 < x \<and> x < 9001 / 100"
    using small(1) by linarith
  then have "89.99 < x \<and> x < 90.01" by simp
  then show ?thesis using x(1) by (auto simp: a)
qed

text \<open>
  Claim C5, the two examples. With \<open>u = 0\<close> and \<open>v = -1\<close> the code computes
  \<^verbatim>\<open>atan2(-0.0, 1.0)\<close>, which is the negative zero, and stores 180, not 0. With
  \<open>u = 1\<close> and \<open>v = 0\<close> it computes \<^verbatim>\<open>atan2(-1.0, -0.0)\<close>, which is \<open>- pi / 2\<close>, and
  stores a value within a hundredth of 90, not 270.
\<close>

theorem UVToDirectionTo_examples_differ:
  "cell_re (snd (UVToDirectionTo [array_of 8 [Finite 0], array_of 8 [Finite (- 1)]] 2 sentinel
                   1 1 GDT_Float64 GDT_Float64 8 8) 0) = Finite 180
   \<and> cell_re (snd (UVToDirectionTo [array_of 8 [Finite 0], array_of 8 [Finite (- 1)]] 2 sentinel
                   1 1 GDT_Float64 GDT_Float64 8 8) 0) \<noteq> Finite 0
   \<and> (\<exists>x. cell_re (snd (UVToDirectionTo [array_of 8 [Finite 1], array_of 8 [Finite 0]] 2 sentinel
                   1 1 GDT_Float64 GDT_Float64 8 8) 0) = Finite x \<and> 89.99 < x \<and> x < 90.01)
   \<and> cell_re (snd (UVToDirectionTo [array_of 8 [Finite 1], array_of 8 [Finite 0]] 2 sentinel
                   1 1 GDT_Float64 GDT_Float64 8 8) 0) \<noteq> Finite 270"
proof -
  have south: "cell_re (snd (UVToDirectionTo [array_of 8 [Finite 0], array_of 8 [Finite (- 1)]] 2
                 sentinel 1 1 GDT_Float64 GDT_Float64 8 8) 0) = Finite 180"
    using UVToDirectionTo_value
          [where pu = "array_of 8 [Finite 0]" and pv = "array_of 8 [Finite (- 1)]"
             and pData = sentinel and nXSize = 1
             and nYSize = 1 and eSrcType = GDT_Float64 and eBufType = GDT_Float64
             and nPixelSpace = 8 and nLineSpace = 8 and iLine = 0 and iCol = 0]
    by (simp add: dst_layout_ok_def sample_defs direction_to_south)
  obtain x where x: "dadd (ddiv (dmul (c_atan2 (dneg (Finite 1)) (dneg (Finite 0))) (Finite 180)) PI)
          (Finite 180) = Finite x" "89.99 < x" "x < 90.01"
    using direction_to_east by blast
  have east: "cell_re (snd (UVToDirectionTo [array_of 8 [Finite 1], array_of 8 [Finite 0]] 2
                 sentinel 1 1 GDT_Float64 GDT_Float64 8 8) 0) = Finite x"
    using UVToDirectionTo_value
          [where pu = "array_of 8 [Finite 1]" and pv = "array_of 8 [Finite 0]"
             and pData = sentinel and nXSize = 1
             and nYSize = 1 and eSrcType = GDT_Float64 and eBufType = GDT_Float64
             and nPixelSpace = 8 and nLineSpace = 8 and iLine = 0 and iCol = 0]
    by (simp add: dst_layout_ok_def sample_defs x(1))
  have "Finite x \<noteq> Finite 270" using x(3) by simp
  with south east x(2,3) show ?thesis by auto
qed

text \<open>
  Claim C5 as the code has it. At every sample \<open>UVToDirectionTo\<close> stores
  \<^verbatim>\<open>atan2(-u, -v) * 180 / PI + 180\<close>, where \<^verbatim>\<open>PI\<close> is the literal 3.14159265 and each
  operation rounds to the nearest \<^verbatim>\<open>double\<close>. When neither component is a NaN the
  stored value lies between 0 and 360, up to the error of that literal. For \<open>u = 0\<close>,
  \<open>v = -1\<close> the stored value is 180; for \<open>u = 1\<close>, \<open>v = 0\<close> it is 90 up to the same
  error. The call succeeds.
\<close>

theorem UVToDirectionTo_writes:
  assumes "dst_layout_ok eBufType nXSize nPixelSpace nLineSpace"
    and "0 \<le> iLine" "iLine < nYSize" "0 \<le> iCol" "iCol < nXSize"
  shows "fst (UVToDirectionTo [pu, pv] 2 pData nXSize nYSize eSrcType eBufType nPixelSpace nLineSpace)
           = CE_None
    \<and> snd (UVToDirectionTo [pu, pv] 2 pData nXSize nYSize eSrcType eBufType nPixelSpace nLineSpace)
           (nLineSpace * iLine + iCol * nPixelSpace) =
         Stored eBufType
           (dadd (ddiv (dmul (c_atan2 (dneg (SRCVAL (pu, 0) eSrcType (iLine * nXSize + iCol)))
                                      (dneg (SRCVAL (pv, 0) eSrcType (iLine * nXSize + iCol))))
                             (Finite 180))
                       PI)
                 (Finite 180))
           (Finite 0)
    \<and> (\<not> is_nan (SRCVAL (pu, 0) eSrcType (iLine * nXSize + iCol))
         \<and> \<not> is_nan (SRCVAL (pv, 0) eSrcType (iLine * nXSize + iCol)) \<longrightarrow>
       (\<exists>x. snd (UVToDirectionTo [pu, pv] 2 pData nXSize nYSize eSrcType eBufType nPixelSpace nLineSpace)
           (nLineSpace * iLine + iCol * nPixelSpace) = Stored eBufType (Finite x) (Finite 0)
            \<and> - 0.02 < x \<and> x < 360.02))
    \<and> (SRCVAL (pu, 0) eSrcType (iLine * nXSize + iCol) = Finite 0
         \<and> SRCVAL (pv, 0) eSrcType (iLine * nXSize + iCol) = Finite (- 1) \<longrightarrow>
       snd (UVToDirectionTo [pu, pv] 2 pData nXSize nYSize eSrcType eBufType nPixelSpace nLineSpace)
           (nLineSpace * iLine + iCol * nPixelSpace) = Stored eBufType (Finite 180) (Finite 0))
    \<and> (SRCVAL (pu, 0) eSrcType (iLine * nXSize + iCol) = Finite 1
         \<and> SRCVAL (pv, 0) eSrcType (iLine * nXSize + iCol) = Finite 0 \<longrightarrow>
       (\<exists>x. snd (UVToDirectionTo [pu, pv] 2 pData nXSize nYSize eSrcType eBufType nPixelSpace nLineSpace)
           (nLineSpace * iLine + iCol * nPixelSpace) = Stored eBufType (Finite x) (Finite 0)
            \<and> 89.99 < x \<and> x < 90.01))"
proof -
  have ok: "fst (UVToDirectionTo [pu, pv] 2 pData nXSize nYSize eSrcType eBufType nPixelSpace nLineSpace) = CE_None"
    by (simp add: UVToDirectionTo_def)
  note v = UVToDirectionTo_value[OF assms, of pu pv pData eSrcType]
  show ?thesis
    apply (rule conjI)
    subgoal by (rule ok)
    apply (rule conjI)
    subgoal by (rule v)
    apply (rule conjI)
    subgoal using direction_range[of "SRCVAL (pu, 0) eSrcType (iLine * nXSize + iCol)" "SRCVAL (pv, 0) eSrcType (iLine * nXSize + iCol)"] by (auto simp: v)
    apply (rule conjI)
    subgoal by (simp add: v direction_to_south)
    subgoal using direction_to_east by (auto simp: v)
    done
qed

text \<open>A row of two samples: \<open>u = 0\<close>, \<open>v = -1\<close> and \<open>u = 1\<close>, \<open>v = 0\<close>.\<close>

theorem UVToDirectionTo_writes_witness:
  "dst_layout_ok GDT_Float64 2 8 16
   \<and> SRCVAL (array_of 8 [Finite 0, Finite 1], 0) GDT_Float64 (0 * 2 + 0) = Finite 0
   \<and> SRCVAL (array_of 8 [Finite (- 1), Finite 0], 0) GDT_Float64 (0 * 2 + 0) = Finite (- 1)
   \<and> SRCVAL (array_of 8 [Finite 0, Finite 1], 0) GDT_Float64 (0 * 2 + 1) = Finite 1
   \<and> SRCVAL (array_of 8 [Finite (- 1), Finite 0], 0) GDT_Float64 (0 * 2 + 1) = Finite 0
   \<and> \<not> is_nan (SRCVAL (array_of 8 [Finite 0, Finite 1], 0) GDT_Float64 (0 * 2 + 0))
   \<and> \<not> is_nan (SRCVAL (array_of 8 [Finite (- 1), Finite 0], 0) GDT_Float64 (0 * 2 + 0))
   \<and> fst (UVToDirectionTo [array_of 8 [Finite 0, Finite 1], array_of 8 [Finite (- 1), Finite 0]] 2
             sentinel 2 1 GDT_Float64 GDT_Float64 8 16) = CE_None
   \<and> snd (UVToDirectionTo [array_of 8 [Finite 0, Finite 1], array_of 8 [Finite (- 1), Finite 0]] 2
             sentinel 2 1 GDT_Float64 GDT_Float64 8 16) 0
        = Stored GDT_Float64 (Finite 180) (Finite 0)
   \<and> (\<exists>x. snd (UVToDirectionTo [array_of 8 [Finite 0, Finite 1], array_of 8 [Finite (- 1), Finite 0]] 2
             sentinel 2 1 GDT_Float64 GDT_Float64 8 16) 8
        = Stored GDT_Float64 (Finite x) (Finite 0) \<and> 89.99 < x \<and> x < 90.01)"
proof -
  note south = UVToDirectionTo_writes
          [where pu = "array_of 8 [Finite 0, Finite 1]" and pv = "array_of 8 [Finite (- 1), Finite 0]"
             and pData = sentinel and nXSize = 2 and nYSize = 1 and eSrcType = GDT_Float64
             and eBufType = GDT_Float64 and nPixelSpace = 8 and nLineSpace = 16
             and iLine = 0 and iCol = 0]
  note east = UVToDirectionTo_writes
          [where pu = "array_of 8 [Finite 0, Finite 1]" and pv = "array_of 8 [Finite (- 1), Finite 0]"
             and pData = sentinel and nXSize = 2 and nYSize = 1 and eSrcType = GDT_Float64
             and eBufType = GDT_Float64 and nPixelSpace = 8 and nLineSpace = 16
             and iLine = 0 and iCol = 1]
  have hyps: "dst_layout_ok GDT_Float64 2 8 16
      \<and> SRCVAL (array_of 8 [Finite 0, Finite 1], 0) GDT_Float64 (0 * 2 + 0) = Finite 0
      \<and> SRCVAL (array_of 8 [Finite (- 1), Finite 0], 0) GDT_Float64 (0 * 2 + 0) = Finite (- 1)
      \<and> SRCVAL (array_of 8 [Finite 0, Finite 1], 0) GDT_Float64 (0 * 2 + 1) = Finite 1
      \<and> SRCVAL (array_of 8 [Finite (- 1), Finite 0], 0) GDT_Float64 (0 * 2 + 1) = Finite 0
      \<and> \<not> is_nan (SRCVAL (array_of 8 [Finite 0, Finite 1], 0) GDT_Float64 (0 * 2 + 0))
      \<and> \<not> is_nan (SRCVAL (array_of 8 [Finite (- 1), Finite 0], 0) GDT_Float64 (0 * 2 + 0))"
    by (simp add: dst_layout_ok_def sample_defs is_nan_def)
  have ok: "fst (UVToDirectionTo [array_of 8 [Finite 0, Finite 1],
                   array_of 8 [Finite (- 1), Finite 0]] 2
             sentinel 2 1 GDT_Float64 GDT_Float64 8 16) = CE_None"
    using south[THEN conjunct1] by (simp add: dst_layout_ok_def)
  have s: "snd (UVToDirectionTo [array_of 8 [Finite 0, Finite 1],
                   array_of 8 [Finite (- 1), Finite 0]] 2
             sentinel 2 1 GDT_Float64 GDT_Float64 8 16) 0
        = Stored GDT_Float64 (Finite 180) (Finite 0)"
    using south[THEN conjunct2, THEN conjunct2, THEN conjunct2, THEN conjunct1]
    by (simp add: dst_layout_ok_def sample_defs)
  have e: "\<exists>x. snd (UVToDirectionTo [array_of 8 [Finite 0, Finite 1],
                   array_of 8 [Finite (- 1), Finite 0]] 2
             sentinel 2 1 GDT_Float64 GDT_Float64 8 16) 8
        = Stored GDT_Float64 (Finite x) (Finite 0) \<and> 89.99 < x \<and> x < 90.01"
    using east[THEN conjunct2, THEN conjunct2, THEN conjunct2, THEN conjunct2]
    by (simp add: dst_layout_ok_def sample_defs)
  from hyps ok s e show ?thesis by blast
qed

section \<open>Incidence angle\<close>







section \<open>Sum\<close>

lemma for_loop_foldl:
  "k \<le> length xs \<Longrightarrow>
     for_loop (int k) (int (length xs)) (\<lambda>i acc. f acc (xs ! nat i)) a = foldl f a (drop k xs)"
proof (induction "length xs - k" arbitrary: k a)
  case 0
  then show ?case by (simp add: for_loop_done)
next
  case (Suc m)
  then have lt: "k < length xs" by simp
  have "for_loop (int k + 1) (int (length xs)) (\<lambda>i acc. f acc (xs ! nat i)) (f a (xs ! k))
          = foldl f (f a (xs ! k)) (drop (Suc k) xs)"
    using Suc.hyps(1)[of "Suc k" "f a (xs ! k)"] Suc.hyps(2) lt by (simp add: add.commute)
  moreover have "drop k xs = xs ! k # drop (Suc k) xs"
    using lt by (simp add: Cons_nth_drop_Suc)
  ultimately show ?case using lt by (simp add: for_loop_step)
qed

text \<open>A sum of integers is exact as long as the magnitudes add up to at most 2 ^ 53.\<close>

lemma foldl_dadd_integers:
  assumes "\<forall>x \<in> set xs. integer_valued x"
    and "\<bar>of_int a\<bar> + (\<Sum>x\<leftarrow>xs. \<bar>dval x\<bar>) \<le> 2 ^ 53"
  shows "foldl dadd (Finite (of_int a)) xs = Finite (of_int a + (\<Sum>x\<leftarrow>xs. dval x))"
  using assms
proof (induction xs arbitrary: a)
  case Nil
  then show ?case by simp
next
  case (Cons x xs)
  define k where "k = \<lfloor>dval x\<rfloor>"
  have x: "\<not> is_nan x" "\<not> is_inf x" "dval x = of_int k"
    using Cons.prems(1) by (simp_all add: integer_valued_def k_def)
  have pos: "0 \<le> (\<Sum>x\<leftarrow>xs. \<bar>dval x\<bar>)" by (rule sum_list_nonneg) auto
  have "\<bar>real_of_int (a + k)\<bar> \<le> \<bar>of_int a\<bar> + \<bar>dval x\<bar>" by (simp add: x(3))
  then have le: "\<bar>real_of_int (a + k)\<bar> + (\<Sum>x\<leftarrow>xs. \<bar>dval x\<bar>) \<le> 2 ^ 53"
    using Cons.prems(2) by simp
  then have "\<bar>real_of_int (a + k)\<bar> \<le> of_int (2 ^ 53)" using pos by simp
  then have "\<bar>a + k\<bar> \<le> 2 ^ 53" by (simp only: of_int_le_iff flip: of_int_abs)
  then have "round_to_double (of_int (a + k)) = Finite (of_int (a + k))"
    by (rule round_to_double_of_int)
  then have step: "dadd (Finite (of_int a)) x = Finite (of_int (a + k))"
    using x by (simp add: dadd_def is_nan_def is_inf_def)
  have "foldl dadd (Finite (of_int (a + k))) xs
          = Finite (of_int (a + k) + (\<Sum>x\<leftarrow>xs. dval x))"
    using Cons.prems(1) le by (intro Cons.IH) simp_all
  then show ?case by (simp add: step x(3) add.assoc)
qed

lemma SumPixelFunc_real:
  assumes "nSources = int (length papoSources)" "2 \<le> nSources"
    and "\<not> GDALDataTypeIsComplex eSrcType"
    and "dst_layout_ok eBufType nXSize nPixelSpace nLineSpace"
    and "0 \<le> iLine" "iLine < nYSize" "0 \<le> iCol" "iCol < nXSize"
  shows "snd (SumPixelFunc papoSources nSources pData nXSize nYSize eSrcType eBufType
                nPixelSpace nLineSpace) (nLineSpace * iLine + iCol * nPixelSpace) =
         Stored eBufType
           (foldl dadd (Finite 0)
              (map (\<lambda>p. SRCVAL (p, 0) eSrcType (iLine * nXSize + iCol)) papoSources))
           (Finite 0)"
proof -
  have "for_loop 0 (int (length papoSources))
          (\<lambda>iSrc dfSum. dadd dfSum (SRCVAL (papoSources ! nat iSrc, 0) eSrcType (iLine * nXSize + iCol)))
          (Finite 0)
        = foldl (\<lambda>dfSum p. dadd dfSum (SRCVAL (p, 0) eSrcType (iLine * nXSize + iCol)))
            (Finite 0) papoSources"
    using for_loop_foldl[of 0 papoSources
        "\<lambda>dfSum p. dadd dfSum (SRCVAL (p, 0) eSrcType (iLine * nXSize + iCol))" "Finite 0"]
    by simp
  then show ?thesis
    using assms
    by (simp add: SumPixelFunc_def Let_def GDALCopyWords_one dst_layout_ok_def tile_write_ii
          double_of_int_def foldl_map)
qed

text \<open>
  Claim C8. For \<open>n >= 2\<close> real sources, \<open>SumPixelFunc\<close> stores at each position of the
  tile the sum of the samples that the sources hold at the linear index
  \<open>iLine * nXSize + iCol\<close>, each read as a \<^verbatim>\<open>double\<close> by \<^verbatim>\<open>SRCVAL\<close> and added from
  left to right to an accumulator that starts at 0, each addition rounded to the
  nearest \<^verbatim>\<open>double\<close>. When all these samples hold integers whose magnitudes add up to
  at most 2 ^ 53, no addition rounds and the stored value is their sum.
\<close>

theorem SumPixelFunc_real_writes:
  assumes "nSources = int (length papoSources)" "2 \<le> nSources"
    and "\<not> GDALDataTypeIsComplex eSrcType"
    and "dst_layout_ok eBufType nXSize nPixelSpace nLineSpace"
    and "0 \<le> iLine" "iLine < nYSize" "0 \<le> iCol" "iCol < nXSize"
  shows "fst (SumPixelFunc papoSources nSources pData nXSize nYSize eSrcType eBufType
                nPixelSpace nLineSpace) = CE_None
    \<and> snd (SumPixelFunc papoSources nSources pData nXSize nYSize eSrcType eBufType
                nPixelSpace nLineSpace) (nLineSpace * iLine + iCol * nPixelSpace) =
         Stored eBufType
           (foldl dadd (Finite 0)
              (map (\<lambda>p. SRCVAL (p, 0) eSrcType (iLine * nXSize + iCol)) papoSources))
           (Finite 0)
    \<and> ((\<forall>p \<in> set papoSources. integer_valued (SRCVAL (p, 0) eSrcType (iLine * nXSize + iCol)))
        \<and> (\<Sum>p\<leftarrow>papoSources. \<bar>dval (SRCVAL (p, 0) eSrcType (iLine * nXSize + iCol))\<bar>) \<le> 2 ^ 53 \<longrightarrow>
        snd (SumPixelFunc papoSources nSources pData nXSize nYSize eSrcType eBufType
                nPixelSpace nLineSpace) (nLineSpace * iLine + iCol * nPixelSpace) =
         Stored eBufType
           (Finite (\<Sum>p\<leftarrow>papoSources. dval (SRCVAL (p, 0) eSrcType (iLine * nXSize + iCol))))
           (Finite 0))"
proof -
  have ok: "fst (SumPixelFunc papoSources nSources pData nXSize nYSize eSrcType eBufType
                nPixelSpace nLineSpace) = CE_None"
    using assms(2) by (simp add: SumPixelFunc_def Let_def)
  have fin: "foldl dadd (Finite 0)
               (map (\<lambda>p. SRCVAL (p, 0) eSrcType (iLine * nXSize + iCol)) papoSources)
             = Finite (\<Sum>p\<leftarrow>papoSources. dval (SRCVAL (p, 0) eSrcType (iLine * nXSize + iCol)))"
    if "\<forall>p \<in> set papoSources. integer_valued (SRCVAL (p, 0) eSrcType (iLine * nXSize + iCol))"
      and "(\<Sum>p\<leftarrow>papoSources. \<bar>dval (SRCVAL (p, 0) eSrcType (iLine * nXSize + iCol))\<bar>) \<le> 2 ^ 53"
    using that
      foldl_dadd_integers[of "map (\<lambda>p. SRCVAL (p, 0) eSrcType (iLine * nXSize + iCol)) papoSources" 0]
    by (simp add: comp_def)
  show ?thesis
    using ok fin SumPixelFunc_real[OF assms, of pData] by simp
qed

text \<open>
  The scenario of the claim: a 2 by 2 tile, two 32-bit float sources holding 1, 2, 3, 4
  and 5, 6, 7, 8, a packed 32-bit float destination. The four elements stored are 6, 8,
  10 and 12.
\<close>

theorem SumPixelFunc_real_writes_witness:
  "(2::int) = int (length [array_of 4 [Finite 1, Finite 2, Finite 3, Finite 4],
                           array_of 4 [Finite 5, Finite 6, Finite 7, Finite 8]])
   \<and> \<not> GDALDataTypeIsComplex GDT_Float32 \<and> dst_layout_ok GDT_Float32 2 4 8
   \<and> integer_valued
         (SRCVAL (array_of 4 [Finite 1, Finite 2, Finite 3, Finite 4], 0) GDT_Float32 (1 * 2 + 1))
   \<and> integer_valued
         (SRCVAL (array_of 4 [Finite 5, Finite 6, Finite 7, Finite 8], 0) GDT_Float32 (1 * 2 + 1))
   \<and> (\<Sum>p\<leftarrow>[array_of 4 [Finite 1, Finite 2, Finite 3, Finite 4],
               array_of 4 [Finite 5, Finite 6, Finite 7, Finite 8]].
          \<bar>dval (SRCVAL (p, 0) GDT_Float32 (1 * 2 + 1))\<bar>) \<le> 2 ^ 53
   \<and> fst (SumPixelFunc [array_of 4 [Finite 1, Finite 2, Finite 3, Finite 4],
                      array_of 4 [Finite 5, Finite 6, Finite 7, Finite 8]] 2
             sentinel 2 2 GDT_Float32 GDT_Float32 4 8) = CE_None
   \<and> snd (SumPixelFunc [array_of 4 [Finite 1, Finite 2, Finite 3, Finite 4],
                      array_of 4 [Finite 5, Finite 6, Finite 7, Finite 8]] 2
             sentinel 2 2 GDT_Float32 GDT_Float32 4 8) 0 = Stored GDT_Float32 (Finite 6) (Finite 0)
   \<and> snd (SumPixelFunc [array_of 4 [Finite 1, Finite 2, Finite 3, Finite 4],
                      array_of 4 [Finite 5, Finite 6, Finite 7, Finite 8]] 2
             sentinel 2 2 GDT_Float32 GDT_Float32 4 8) 4 = Stored GDT_Float32 (Finite 8) (Finite 0)
   \<and> snd (SumPixelFunc [array_of 4 [Finite 1, Finite 2, Finite 3, Finite 4],
                      array_of 4 [Finite 5, Finite 6, Finite 7, Finite 8]] 2
             sentinel 2 2 GDT_Float32 GDT_Float32 4 8) 8 = Stored GDT_Float32 (Finite 10) (Finite 0)
   \<and> snd (SumPixelFunc [array_of 4 [Finite 1, Finite 2, Finite 3, Finite 4],
                      array_of 4 [Finite 5, Finite 6, Finite 7, Finite 8]] 2
             sentinel 2 2 GDT_Float32 GDT_Float32 4 8) 12 = Stored GDT_Float32 (Finite 12) (Finite 0)"
  using SumPixelFunc_real_writes
          [where papoSources = "[array_of 4 [Finite 1, Finite 2, Finite 3, Finite 4],
                                 array_of 4 [Finite 5, Finite 6, Finite 7, Finite 8]]"
             and nSources = 2 and pData = sentinel and nXSize = 2 and nYSize = 2
             and eSrcType = GDT_Float32 and eBufType = GDT_Float32 and nPixelSpace = 4
             and nLineSpace = 8 and iLine = 0 and iCol = 0]
        SumPixelFunc_real_writes
          [where papoSources = "[array_of 4 [Finite 1, Finite 2, Finite 3, Finite 4],
                                 array_of 4 [Finite 5, Finite 6, Finite 7, Finite 8]]"
             and nSources = 2 and pData = sentinel and nXSize = 2 and nYSize = 2
             and eSrcType = GDT_Float32 and eBufType = GDT_Float32 and nPixelSpace = 4
             and nLineSpace = 8 and iLine = 0 and iCol = 1]
        SumPixelFunc_real_writes
          [where papoSources = "[array_of 4 [Finite 1, Finite 2, Finite 3, Finite 4],
                                 array_of 4 [Finite 5, Finite 6, Finite 7, Finite 8]]"
             and nSources = 2 and pData = sentinel and nXSize = 2 and nYSize = 2
             and eSrcType = GDT_Float32 and eBufType = GDT_Float32 and nPixelSpace = 4
             and nLineSpace = 8 and iLine = 1 and iCol = 0]
        SumPixelFunc_real_writes
          [where papoSources = "[array_of 4 [Finite 1, Finite 2, Finite 3, Finite 4],
                                 array_of 4 [Finite 5, Finite 6, Finite 7, Finite 8]]"
             and nSources = 2 and pData = sentinel and nXSize = 2 and nYSize = 2
             and eSrcType = GDT_Float32 and eBufType = GDT_Float32 and nPixelSpace = 4
             and nLineSpace = 8 and iLine = 1 and iCol = 1]
  by (simp add: dst_layout_ok_def sample_defs integer_valued_def dadd_def is_nan_def is_inf_def
        round_to_double_numeral)

section \<open>Conjugate\<close>

lemma SRCVAL_offset:
  "eSrcType \<noteq> GDT_Unknown \<Longrightarrow>
     SRCVAL (buf, off) eSrcType ii = buf (off + ii * (GDALGetDataTypeSize eSrcType div 8))"
  by (cases eSrcType) (simp_all add: SRCVAL_def algebra_simps)

lemma complex_not_unknown: "GDALDataTypeIsComplex t \<Longrightarrow> t \<noteq> GDT_Unknown"
  by auto

lemma GDALCopyWords_row:
  "GDALCopyWords (src, soff) eSrcType sstride (d, doff) eDstType dstride n =
     for_loop 0 n (\<lambda>k d. d(doff + k * dstride :=
       stored_word eDstType (src (soff + k * sstride))
         (if GDALDataTypeIsComplex eSrcType
          then src (soff + k * sstride + GDALGetDataTypeSize eSrcType div 8 div 2)
          else Finite 0))) d"
  by (simp add: GDALCopyWords_def write_word_def read_word_def)

lemma RealPixelFunc_value:
  assumes "dst_layout_ok eBufType nXSize nPixelSpace nLineSpace"
    and "0 \<le> iLine" "iLine < nYSize" "0 \<le> iCol" "iCol < nXSize"
    and ne: "eSrcType \<noteq> GDT_Unknown"
  shows "snd (RealPixelFunc [src] 1 pData nXSize nYSize eSrcType eBufType nPixelSpace nLineSpace)
           (nLineSpace * iLine + iCol * nPixelSpace) =
         stored_word eBufType (SRCVAL (src, 0) eSrcType (iLine * nXSize + iCol))
           (if GDALDataTypeIsComplex eSrcType
            then SRCVAL (src, GDALGetDataTypeSize eSrcType div 8 div 2) eSrcType
                   (iLine * nXSize + iCol)
            else Finite 0)"
proof -
  let ?sz = "GDALGetDataTypeSize eSrcType div 8"
  have v: "snd (RealPixelFunc [src] 1 pData nXSize nYSize eSrcType eBufType nPixelSpace nLineSpace)
             (nLineSpace * iLine + iCol * nPixelSpace) =
           stored_word eBufType (src (?sz * nXSize * iLine + iCol * ?sz))
             (if GDALDataTypeIsComplex eSrcType
              then src (?sz * nXSize * iLine + iCol * ?sz + ?sz div 2)
              else Finite 0)"
    using assms
    by (simp add: RealPixelFunc_def Let_def GDALCopyWords_row dst_layout_ok_def tile_write)
  show ?thesis
    unfolding v by (simp add: SRCVAL_offset[OF ne] algebra_simps)
qed

lemma ConjPixelFunc_complex:
  assumes "dst_layout_ok eBufType nXSize nPixelSpace nLineSpace"
    and "0 \<le> iLine" "iLine < nYSize" "0 \<le> iCol" "iCol < nXSize"
    and "GDALDataTypeIsComplex eSrcType" "GDALDataTypeIsComplex eBufType"
  shows "snd (ConjPixelFunc [src] 1 pData nXSize nYSize eSrcType eBufType nPixelSpace nLineSpace)
           (nLineSpace * iLine + iCol * nPixelSpace) =
         Stored eBufType (SRCVAL (src, 0) eSrcType (iLine * nXSize + iCol))
           (dneg (SRCVAL (src, GDALGetDataTypeSize eSrcType div 8 div 2) eSrcType
                    (iLine * nXSize + iCol)))"
  using assms
  by (simp add: ConjPixelFunc_def Let_def GDALCopyWords_one dst_layout_ok_def tile_write_ii
        stored_word_def)

text \<open>
  Claim C10. \<open>ConjPixelFunc\<close> conjugates only when the source type and the destination
  type are both complex; otherwise it is \<open>RealPixelFunc\<close> on the same arguments. With a
  complex source and a real destination the element stored for a sample is the real
  part of the sample, and the imaginary part is not negated, not even read into the
  result. With both types complex the element stored is the real part and the negated
  imaginary part.
\<close>

theorem ConjPixelFunc_real_destination:
  "(\<not> (GDALDataTypeIsComplex eSrcType \<and> GDALDataTypeIsComplex eBufType) \<longrightarrow>
      ConjPixelFunc papoSources nSources pData nXSize nYSize eSrcType eBufType nPixelSpace nLineSpace
      = RealPixelFunc papoSources nSources pData nXSize nYSize eSrcType eBufType nPixelSpace nLineSpace)
   \<and> (GDALDataTypeIsComplex eSrcType \<and> \<not> GDALDataTypeIsComplex eBufType
        \<and> dst_layout_ok eBufType nXSize nPixelSpace nLineSpace
        \<and> 0 \<le> iLine \<and> iLine < nYSize \<and> 0 \<le> iCol \<and> iCol < nXSize \<longrightarrow>
      fst (ConjPixelFunc [src] 1 dst nXSize nYSize eSrcType eBufType nPixelSpace nLineSpace)
        = CE_None
      \<and> snd (ConjPixelFunc [src] 1 dst nXSize nYSize eSrcType eBufType nPixelSpace nLineSpace)
           (nLineSpace * iLine + iCol * nPixelSpace)
        = Stored eBufType (SRCVAL (src, 0) eSrcType (iLine * nXSize + iCol)) (Finite 0))
   \<and> (GDALDataTypeIsComplex eSrcType \<and> GDALDataTypeIsComplex eBufType
        \<and> dst_layout_ok eBufType nXSize nPixelSpace nLineSpace
        \<and> 0 \<le> iLine \<and> iLine < nYSize \<and> 0 \<le> iCol \<and> iCol < nXSize \<longrightarrow>
      fst (ConjPixelFunc [src] 1 dst nXSize nYSize eSrcType eBufType nPixelSpace nLineSpace)
        = CE_None
      \<and> snd (ConjPixelFunc [src] 1 dst nXSize nYSize eSrcType eBufType nPixelSpace nLineSpace)
           (nLineSpace * iLine + iCol * nPixelSpace)
        = Stored eBufType (SRCVAL (src, 0) eSrcType (iLine * nXSize + iCol))
            (dneg (SRCVAL (src, GDALGetDataTypeSize eSrcType div 8 div 2) eSrcType
                     (iLine * nXSize + iCol))))"
proof -
  have same: "\<not> (GDALDataTypeIsComplex eSrcType \<and> GDALDataTypeIsComplex eBufType) \<Longrightarrow>
      ConjPixelFunc ps n d nXSize nYSize eSrcType eBufType nPixelSpace nLineSpace
      = RealPixelFunc ps n d nXSize nYSize eSrcType eBufType nPixelSpace nLineSpace" for ps n d
    by (auto simp: ConjPixelFunc_def RealPixelFunc_def)
  have ok: "fst (RealPixelFunc [src] 1 dst nXSize nYSize eSrcType eBufType nPixelSpace nLineSpace)
        = CE_None"
       "fst (ConjPixelFunc [src] 1 dst nXSize nYSize eSrcType eBufType nPixelSpace nLineSpace)
        = CE_None"
    by (auto simp: ConjPixelFunc_def RealPixelFunc_def Let_def)
  show ?thesis
    apply (rule conjI)
    subgoal using same by blast
    apply (rule conjI)
    subgoal
      using RealPixelFunc_value[of eBufType nXSize nPixelSpace nLineSpace iLine nYSize iCol
          eSrcType src dst] same[of "[src]" 1 dst] ok
      by (auto simp: stored_word_def dest: complex_not_unknown)
    subgoal
      using ConjPixelFunc_complex[of eBufType nXSize nPixelSpace nLineSpace iLine nYSize iCol
          eSrcType src dst] ok
      by simp
    done
qed

text \<open>The complex 32-bit float sample \<open>1 + 2i\<close>, copied to a real and to a complex
  destination.\<close>

theorem ConjPixelFunc_real_destination_witness:
  "\<not> (GDALDataTypeIsComplex GDT_CFloat32 \<and> GDALDataTypeIsComplex GDT_Float32)
   \<and> GDALDataTypeIsComplex GDT_CFloat32 \<and> \<not> GDALDataTypeIsComplex GDT_Float32
   \<and> dst_layout_ok GDT_Float32 1 8 8 \<and> dst_layout_ok GDT_CFloat32 1 8 8
   \<and> ConjPixelFunc [array_of 4 [Finite 1, Finite 2]] 1 sentinel 1 1 GDT_CFloat32 GDT_Float32 8 8
        = RealPixelFunc [array_of 4 [Finite 1, Finite 2]] 1 sentinel 1 1 GDT_CFloat32 GDT_Float32 8 8
   \<and> fst (ConjPixelFunc [array_of 4 [Finite 1, Finite 2]] 1 sentinel 1 1 GDT_CFloat32 GDT_Float32
             8 8) = CE_None
   \<and> snd (ConjPixelFunc [array_of 4 [Finite 1, Finite 2]] 1 sentinel 1 1 GDT_CFloat32 GDT_Float32
             8 8) 0 = Stored GDT_Float32 (Finite 1) (Finite 0)
   \<and> snd (ConjPixelFunc [array_of 4 [Finite 1, Finite 2]] 1 sentinel 1 1 GDT_CFloat32 GDT_CFloat32
             8 8) 0 = Stored GDT_CFloat32 (Finite 1) (Finite (- 2))"
proof -
  note real_dst = ConjPixelFunc_real_destination
          [where papoSources = "[array_of 4 [Finite 1, Finite 2]]" and nSources = 1
             and pData = sentinel and src = "array_of 4 [Finite 1, Finite 2]" and dst = sentinel
             and nXSize = 1 and nYSize = 1 and eSrcType = GDT_CFloat32 and eBufType = GDT_Float32
             and nPixelSpace = 8 and nLineSpace = 8 and iLine = 0 and iCol = 0]
  note cplx_dst = ConjPixelFunc_real_destination
          [where papoSources = "[array_of 4 [Finite 1, Finite 2]]" and nSources = 1
             and pData = sentinel and src = "array_of 4 [Finite 1, Finite 2]" and dst = sentinel
             and nXSize = 1 and nYSize = 1 and eSrcType = GDT_CFloat32 and eBufType = GDT_CFloat32
             and nPixelSpace = 8 and nLineSpace = 8 and iLine = 0 and iCol = 0]
  have hyps: "\<not> (GDALDataTypeIsComplex GDT_CFloat32 \<and> GDALDataTypeIsComplex GDT_Float32)
      \<and> GDALDataTypeIsComplex GDT_CFloat32 \<and> \<not> GDALDataTypeIsComplex GDT_Float32
      \<and> dst_layout_ok GDT_Float32 1 8 8 \<and> dst_layout_ok GDT_CFloat32 1 8 8"
    by (simp add: dst_layout_ok_def)
  have same: "ConjPixelFunc [array_of 4 [Finite 1, Finite 2]] 1 sentinel 1 1 GDT_CFloat32
                GDT_Float32 8 8
              = RealPixelFunc [array_of 4 [Finite 1, Finite 2]] 1 sentinel 1 1 GDT_CFloat32
                GDT_Float32 8 8"
    using real_dst[THEN conjunct1] by simp
  have re: "fst (ConjPixelFunc [array_of 4 [Finite 1, Finite 2]] 1 sentinel 1 1 GDT_CFloat32
                   GDT_Float32 8 8) = CE_None
      \<and> snd (ConjPixelFunc [array_of 4 [Finite 1, Finite 2]] 1 sentinel 1 1 GDT_CFloat32
                   GDT_Float32 8 8) 0 = Stored GDT_Float32 (Finite 1) (Finite 0)"
    using real_dst[THEN conjunct2, THEN conjunct1]
    by (simp add: dst_layout_ok_def sample_defs)
  have cj: "snd (ConjPixelFunc [array_of 4 [Finite 1, Finite 2]] 1 sentinel 1 1 GDT_CFloat32
                   GDT_CFloat32 8 8) 0 = Stored GDT_CFloat32 (Finite 1) (Finite (- 2))"
    using cplx_dst[THEN conjunct2, THEN conjunct2]
    by (simp add: dst_layout_ok_def sample_defs dneg_def)
  from hyps same re cj show ?thesis by blast
qed







text \<open>An integer within the range of an integer type is stored unchanged.\<close>

lemma round_half_away_int [simp]: "round_half_away (of_int k) = k"
proof -
  have "\<lfloor>real_of_int k + 1 / 2\<rfloor> = k" "\<lceil>real_of_int k - 1 / 2\<rceil> = k"
    by linarith+
  then show ?thesis by (simp add: round_half_away_def)
qed






section \<open>Numerically degenerate samples\<close>





























end
